theory Spec2Isabelle
  imports Complex_Main
begin

section \<open>The PageSpeed monitor of scripts/generate-index.js\<close>

text \<open>
  The class \<^verbatim>\<open>PageSpeedMonitor\<close> (lines 315--643 of the file) samples Lighthouse several
  times per URL, averages the four category scores, stores the averaged record in the
  directory \<^verbatim>\<open>baseline/\<close> or \<^verbatim>\<open>latest/\<close> and writes an HTML report with the differences to
  the stored baseline.

  JavaScript numbers are modelled exactly: the scores of a Lighthouse result are
  rationals, rounded scores and their sums are integers, and \<^verbatim>\<open>score * 100\<close> and
  \<^verbatim>\<open>sum / results.length\<close> are the exact product and quotient (the rounding of a
  double-precision result is not modelled). A JavaScript string is a \<^typ>\<open>string\<close>, one
  \<^typ>\<open>char\<close> per code unit. The three directories are maps from file names to contents;
  whether a write to one of them succeeds is for the environment to say.
\<close>

subsection \<open>urlToFilename (lines 334--338)\<close>

text \<open>The character class \<^verbatim>\<open>[a-zA-Z0-9]\<close>.\<close>

definition is_alnum :: "char \<Rightarrow> bool" where
  "is_alnum c =
     (let n = (of_char c :: nat)
      in (97 \<le> n \<and> n \<le> 122) \<or> (65 \<le> n \<and> n \<le> 90) \<or> (48 \<le> n \<and> n \<le> 57))"

text \<open>
  \<^verbatim>\<open>url.replace(/https?:\/\//, "")\<close>: the pattern is neither anchored nor global, so the
  leftmost occurrence of \<^verbatim>\<open>http://\<close> or \<^verbatim>\<open>https://\<close> is removed, wherever it stands.
\<close>

fun strip_scheme :: "string \<Rightarrow> string" where
  "strip_scheme [] = []"
| "strip_scheme (c # cs) =
     (if take 8 (c # cs) = ''https://'' then drop 8 (c # cs)
      else if take 7 (c # cs) = ''http://'' then drop 7 (c # cs)
      else c # strip_scheme cs)"

text \<open>\<^verbatim>\<open>.replace(/[^a-zA-Z0-9]/g, "-")\<close>: every other character becomes a dash.\<close>

definition dash :: "char \<Rightarrow> char" where
  "dash c = (if is_alnum c then c else CHR ''-'')"

definition urlToFilename :: "string \<Rightarrow> string" where
  "urlToFilename url = map dash (strip_scheme url) @ ''.json''"

subsection \<open>Records\<close>

text \<open>
  The object \<^verbatim>\<open>runLighthouse\<close> returns has the four scores and a timestamp; the averaged
  object of \<^verbatim>\<open>runMultipleLighthouse\<close> has the same five fields and \<^verbatim>\<open>url\<close>, \<^verbatim>\<open>runs\<close> and
  \<^verbatim>\<open>rawResults\<close>; the object of \<^verbatim>\<open>calculateDelta\<close> has the four scores only.
\<close>

record scores =
  performance :: int
  accessibility :: int
  bestPractices :: int
  seo :: int

record sample = scores +
  timestamp :: string

record averaged = sample +
  url :: string
  runs :: nat
  rawResults :: "sample list"

subsection \<open>runLighthouse (lines 340--371)\<close>

text \<open>
  What one run of the Lighthouse command line gives: \<^verbatim>\<open>execAsync\<close> rejects, or its
  standard output is not JSON (\<^verbatim>\<open>JSON.parse\<close> throws), or it parses. A parsed result may
  lack \<^verbatim>\<open>categories\<close>; a category may be missing from \<^verbatim>\<open>categories\<close>, and its
  \<^verbatim>\<open>score\<close> may be \<^verbatim>\<open>null\<close>.
\<close>

record category =
  score :: "rat option"

record lh_result =
  categories :: "(string \<rightharpoonup> category) option"

datatype lh_run = ExecError | BadJson | Parsed lh_result

text \<open>\<^verbatim>\<open>Math.round\<close>: the nearest integer, a half going to the larger one.\<close>

definition Math_round :: "rat \<Rightarrow> int" where
  "Math_round x = \<lfloor>x + 1 / 2\<rfloor>"

text \<open>\<^verbatim>\<open>categories[k]?.score || 0\<close>\<close>

definition score_or_0 :: "(string \<rightharpoonup> category) \<Rightarrow> string \<Rightarrow> rat" where
  "score_or_0 cats k =
     (case cats k of
        None \<Rightarrow> 0
      | Some c \<Rightarrow> (case score c of None \<Rightarrow> 0 | Some s \<Rightarrow> if s = 0 then 0 else s))"

text \<open>
  The body of the \<^verbatim>\<open>try\<close> block once the command has run, for the time \<open>now\<close> the
  clock shows: \<^verbatim>\<open>None\<close> is the \<^verbatim>\<open>catch\<close> branch (\<^verbatim>\<open>return null\<close>), reached by a
  rejected command, by output that does not parse and by the \<^verbatim>\<open>throw\<close> for a result
  without categories.
\<close>

definition lighthouse_sample :: "lh_run \<Rightarrow> string \<Rightarrow> sample option" where
  "lighthouse_sample out now =
     (case out of
        ExecError \<Rightarrow> None
      | BadJson \<Rightarrow> None
      | Parsed result \<Rightarrow>
          (case categories result of
             None \<Rightarrow> None
           | Some cats \<Rightarrow>
               Some \<lparr> performance = Math_round (score_or_0 cats ''performance'' * 100),
                      accessibility = Math_round (score_or_0 cats ''accessibility'' * 100),
                      bestPractices = Math_round (score_or_0 cats ''best-practices'' * 100),
                      seo = Math_round (score_or_0 cats ''seo'' * 100),
                      timestamp = now \<rparr>))"

text \<open>The three directories of the constructor (lines 319--321).\<close>

datatype folder = Baseline | Latest | Reports

text \<open>
  The environment of a run: what the \<open>k\<close>-th Lighthouse invocation of the process gives
  for a URL, what the \<open>k\<close>-th reading of the clock (\<^verbatim>\<open>new Date().toISOString()\<close>) gives,
  and whether \<^verbatim>\<open>fs.writeFile\<close> succeeds for a file name in a directory. It rejects, for
  example, when the directory does not exist: the class creates none of the three.
\<close>

record env =
  exec :: "nat \<Rightarrow> string \<Rightarrow> lh_run"
  clock :: "nat \<Rightarrow> string"
  write_ok :: "folder \<Rightarrow> string \<Rightarrow> bool"

text \<open>The rejection of \<^verbatim>\<open>fs.writeFile\<close>, which no method of the class catches.\<close>

datatype error = WriteError

text \<open>
  A stored file is the JSON text of an averaged record (\<^verbatim>\<open>JSON.stringify\<close> followed by
  \<^verbatim>\<open>JSON.parse\<close> gives the record back) or text that \<^verbatim>\<open>JSON.parse\<close> rejects. A report
  is the page built from the three arguments of \<^verbatim>\<open>generateHtmlReport\<close>.
\<close>

datatype json_file = Json averaged | Malformed

datatype html = Html averaged "averaged option" "scores option"

text \<open>
  The state of the process: the URLs Lighthouse has been invoked on (oldest first), the
  number of clock readings, and the three directories, each a map from file names.
\<close>

record world =
  calls :: "string list"
  ticks :: nat
  baselineDir :: "string \<rightharpoonup> json_file"
  latestDir :: "string \<rightharpoonup> json_file"
  reportsDir :: "string \<rightharpoonup> html"

definition runLighthouse :: "env \<Rightarrow> string \<Rightarrow> world \<Rightarrow> sample option \<times> world" where
  "runLighthouse e u w =
     (let w1 = w\<lparr>calls := calls w @ [u]\<rparr>
      in case lighthouse_sample (exec e (length (calls w)) u) (clock e (ticks w)) of
           None \<Rightarrow> (None, w1)
         | Some result \<Rightarrow> (Some result, w1\<lparr>ticks := Suc (ticks w)\<rparr>))"

subsection \<open>runMultipleLighthouse (lines 373--419)\<close>

text \<open>The loop of lines 377--388, with the number of iterations still to run.\<close>

fun sample_loop :: "env \<Rightarrow> string \<Rightarrow> nat \<Rightarrow> sample list \<Rightarrow> world \<Rightarrow> sample list \<times> world" where
  "sample_loop e u 0 results w = (results, w)"
| "sample_loop e u (Suc n) results w =
     (case runLighthouse e u w of
        (None, w') \<Rightarrow> sample_loop e u n results w'
      | (Some result, w') \<Rightarrow> sample_loop e u n (results @ [result]) w')"

text \<open>
  \<^verbatim>\<open>Math.round(results.reduce((sum, r) => sum + r.f, 0) / results.length)\<close>
\<close>

definition average :: "(sample \<Rightarrow> int) \<Rightarrow> sample list \<Rightarrow> int" where
  "average f results =
     Math_round (of_int (foldl (\<lambda>sum r. sum + f r) 0 results) / of_nat (length results))"

text \<open>The object literal of lines 396--413, for a list of results and a timestamp.\<close>

definition averaged_of :: "string \<Rightarrow> sample list \<Rightarrow> string \<Rightarrow> averaged" where
  "averaged_of u results now =
     \<lparr> performance = average performance results,
       accessibility = average accessibility results,
       bestPractices = average bestPractices results,
       seo = average seo results,
       timestamp = now,
       url = u,
       runs = length results,
       rawResults = results \<rparr>"

text \<open>The parameter \<^verbatim>\<open>runs = 3\<close>: \<^verbatim>\<open>None\<close> is the call that leaves it out.\<close>

definition runMultipleLighthouse ::
  "env \<Rightarrow> string \<Rightarrow> nat option \<Rightarrow> world \<Rightarrow> averaged option \<times> world" where
  "runMultipleLighthouse e u nruns w =
     (case sample_loop e u (case nruns of None \<Rightarrow> 3 | Some n \<Rightarrow> n) [] w of
        (results, w') \<Rightarrow>
          if length results = 0 then (None, w')
          else (Some (averaged_of u results (clock e (ticks w'))),
                w'\<lparr>ticks := Suc (ticks w')\<rparr>))"

subsection \<open>saveResults, loadBaseline, calculateDelta (lines 421--455)\<close>

text \<open>
  \<^verbatim>\<open>saveResults\<close> writes each record under its file name into the target directory, in
  the order of the list; a later record with the same file name replaces an earlier one.
  The first rejected write ends the loop with the error, the earlier writes done.
\<close>

fun saveResults :: "env \<Rightarrow> averaged list \<Rightarrow> bool \<Rightarrow> world \<Rightarrow> error option \<times> world" where
  "saveResults e [] isBaseline w = (None, w)"
| "saveResults e (result # results) isBaseline w =
     (let filename = urlToFilename (url result)
      in if isBaseline
         then if write_ok e Baseline filename
              then saveResults e results isBaseline
                     (w\<lparr>baselineDir := (baselineDir w)(filename \<mapsto> Json result)\<rparr>)
              else (Some WriteError, w)
         else if write_ok e Latest filename
              then saveResults e results isBaseline
                     (w\<lparr>latestDir := (latestDir w)(filename \<mapsto> Json result)\<rparr>)
              else (Some WriteError, w))"

text \<open>
  \<^verbatim>\<open>loadBaseline\<close>: \<^verbatim>\<open>null\<close> when \<^verbatim>\<open>readFile\<close> or \<^verbatim>\<open>JSON.parse\<close> throws.
\<close>

definition loadBaseline :: "string \<Rightarrow> world \<Rightarrow> averaged option" where
  "loadBaseline u w =
     (case baselineDir w (urlToFilename u) of
        None \<Rightarrow> None
      | Some Malformed \<Rightarrow> None
      | Some (Json b) \<Rightarrow> Some b)"

definition calculateDelta :: "averaged \<Rightarrow> averaged option \<Rightarrow> scores option" where
  "calculateDelta current baseline =
     (case baseline of
        None \<Rightarrow> None
      | Some b \<Rightarrow>
          Some \<lparr> performance = performance current - performance b,
                 accessibility = accessibility current - accessibility b,
                 bestPractices = bestPractices current - bestPractices b,
                 seo = seo current - seo b \<rparr>)"

subsection \<open>generateReports (lines 588--602)\<close>

text \<open>\<^verbatim>\<open>s.replace(pat, rep)\<close> for a string pattern: the first occurrence only.\<close>

fun replace_first :: "string \<Rightarrow> string \<Rightarrow> string \<Rightarrow> string" where
  "replace_first pat rep [] = (if pat = [] then rep else [])"
| "replace_first pat rep (c # cs) =
     (if take (length pat) (c # cs) = pat then rep @ drop (length pat) (c # cs)
      else c # replace_first pat rep cs)"

fun generateReports :: "env \<Rightarrow> averaged list \<Rightarrow> world \<Rightarrow> error option \<times> world" where
  "generateReports e [] w = (None, w)"
| "generateReports e (result # results) w =
     (let baseline = loadBaseline (url result) w;
          delta = calculateDelta result baseline;
          page = Html result baseline delta;
          filename = replace_first ''.json'' ''.html'' (urlToFilename (url result))
      in if write_ok e Reports filename
         then generateReports e results (w\<lparr>reportsDir := (reportsDir w)(filename \<mapsto> page)\<rparr>)
         else (Some WriteError, w))"

subsection \<open>run (lines 604--642)\<close>

text \<open>The loop of lines 620--625 over the URLs.\<close>

fun sample_urls :: "env \<Rightarrow> string list \<Rightarrow> averaged list \<Rightarrow> world \<Rightarrow> averaged list \<times> world" where
  "sample_urls e [] results w = (results, w)"
| "sample_urls e (u # urls) results w =
     (case runMultipleLighthouse e u None w of
        (None, w') \<Rightarrow> sample_urls e urls results w'
      | (Some result, w') \<Rightarrow> sample_urls e urls (results @ [result]) w')"

text \<open>
  \<^verbatim>\<open>run\<close> from line 618 on, for the flag \<^verbatim>\<open>--update-baseline\<close> and the URLs that lines
  605--616 took from the command line or from \<^verbatim>\<open>urls.json\<close>. It gives the exit code of
  the process: 1 from \<^verbatim>\<open>process.exit(1)\<close> at line 629, 1 again when a write is rejected
  (\<^verbatim>\<open>run\<close> then rejects, and the \<^verbatim>\<open>catch\<close> of lines 648--651 calls \<^verbatim>\<open>process.exit(1)\<close>),
  0 when \<^verbatim>\<open>run\<close> returns.
\<close>

definition run :: "env \<Rightarrow> bool \<Rightarrow> string list \<Rightarrow> world \<Rightarrow> nat \<times> world" where
  "run e updateBaseline urls w =
     (case sample_urls e urls [] w of
        (results, w1) \<Rightarrow>
          if length results = 0 then (1, w1)
          else if updateBaseline
          then (case saveResults e results True w1 of
                  (Some err, w2) \<Rightarrow> (1, w2)
                | (None, w2) \<Rightarrow> (0, w2))
          else (case saveResults e results False w1 of
                  (Some err, w2) \<Rightarrow> (1, w2)
                | (None, w2) \<Rightarrow>
                    (case generateReports e results w2 of
                       (Some err, w3) \<Rightarrow> (1, w3)
                     | (None, w3) \<Rightarrow> (0, w3))))"

section \<open>Notions for stating the properties\<close>

text \<open>
  The mean of a list of integer scores rounded to the nearest integer, a half going up:
  \<open>k\<close> is that value for \<open>xs\<close> when the mean \<open>q\<close> satisfies \<open>k - 1/2 \<le> q < k + 1/2\<close>.
\<close>

definition rounded_mean :: "int list \<Rightarrow> int \<Rightarrow> bool" where
  "rounded_mean xs k =
     (let q = (of_int (sum_list xs) / of_nat (length xs) :: rat)
      in of_int k - 1 / 2 \<le> q \<and> q < of_int k + 1 / 2)"

text \<open>
  The key of each category in the Lighthouse result and the field of the sample that
  lines 359--364 fill from it.
\<close>

definition category_fields :: "(string \<times> (sample \<Rightarrow> int)) list" where
  "category_fields =
     [(''performance'', performance), (''accessibility'', accessibility),
      (''best-practices'', bestPractices), (''seo'', seo)]"

text \<open>
  The scores one Lighthouse invocation contributes, if any: \<^verbatim>\<open>None\<close> when
  \<^verbatim>\<open>runLighthouse\<close> returns \<^verbatim>\<open>null\<close> for it. They do not depend on the clock.
\<close>

definition run_scores :: "lh_run \<Rightarrow> scores option" where
  "run_scores out = map_option scores.truncate (lighthouse_sample out [])"

text \<open>What the \<open>n\<close> invocations for the URL \<open>u\<close> give that start with the \<open>k\<close>-th one.\<close>

definition outcomes :: "env \<Rightarrow> string \<Rightarrow> nat \<Rightarrow> nat \<Rightarrow> lh_run list" where
  "outcomes e u k n = map (\<lambda>i. exec e (k + i) u) [0..<n]"

text \<open>The file name of the report of a result (line 596).\<close>

definition report_name :: "averaged \<Rightarrow> string" where
  "report_name a = replace_first ''.json'' ''.html'' (urlToFilename (url a))"

subsection \<open>Example inputs\<close>

definition example_sample :: "int \<Rightarrow> sample" where
  "example_sample p =
     \<lparr> performance = p, accessibility = 70, bestPractices = 70, seo = 70,
       timestamp = ''2024-01-01T00:00:00.000Z'' \<rparr>"

definition example_world :: world where
  "example_world =
     \<lparr> calls = [], ticks = 0, baselineDir = Map.empty, latestDir = Map.empty,
       reportsDir = Map.empty \<rparr>"

definition example_output :: "rat \<Rightarrow> lh_run" where
  "example_output p =
     Parsed \<lparr> categories = Some
       [''performance'' \<mapsto> \<lparr> score = Some p \<rparr>,
        ''accessibility'' \<mapsto> \<lparr> score = Some (7 / 10) \<rparr>,
        ''best-practices'' \<mapsto> \<lparr> score = Some (7 / 10) \<rparr>,
        ''seo'' \<mapsto> \<lparr> score = Some (7 / 10) \<rparr>] \<rparr>"

text \<open>A result whose performance score is \<^verbatim>\<open>null\<close> and that has no \<^verbatim>\<open>seo\<close> category.\<close>

definition partial_categories :: "string \<rightharpoonup> category" where
  "partial_categories =
     [''performance'' \<mapsto> \<lparr> score = None \<rparr>,
      ''accessibility'' \<mapsto> \<lparr> score = Some (7 / 10) \<rparr>,
      ''best-practices'' \<mapsto> \<lparr> score = Some (7 / 10) \<rparr>]"

definition partial_output :: lh_run where
  "partial_output = Parsed \<lparr> categories = Some partial_categories \<rparr>"

definition partial_env :: env where
  "partial_env = \<lparr> exec = (\<lambda>k u. partial_output), clock = (\<lambda>k. ''2024-01-01T00:00:00.000Z''),
       write_ok = (\<lambda>d f. True) \<rparr>"

text \<open>
  The scenario of the specification: three runs with the performance scores 0.8, 0.9
  and 1, the other scores 0.7.
\<close>

definition scenario_env :: env where
  "scenario_env =
     \<lparr> exec = (\<lambda>k u. if k = 0 then example_output (8 / 10)
                      else if k = 1 then example_output (9 / 10)
                      else example_output 1),
       clock = (\<lambda>k. ''2024-01-01T00:00:00.000Z''),
       write_ok = (\<lambda>d f. True) \<rparr>"

text \<open>Lighthouse fails on the second invocation only.\<close>

definition flaky_env :: env where
  "flaky_env =
     \<lparr> exec = (\<lambda>k u. if k = 0 then example_output (8 / 10)
                      else if k = 1 then ExecError
                      else example_output (95 / 100)),
       clock = (\<lambda>k. ''2024-01-01T00:00:00.000Z''),
       write_ok = (\<lambda>d f. True) \<rparr>"

text \<open>The first three invocations print no JSON, the later ones succeed.\<close>

definition late_env :: env where
  "late_env =
     \<lparr> exec = (\<lambda>k u. if k < 3 then BadJson else example_output (9 / 10)),
       clock = (\<lambda>k. ''2024-01-01T00:00:00.000Z''),
       write_ok = (\<lambda>d f. True) \<rparr>"

definition dead_env :: env where
  "dead_env = \<lparr> exec = (\<lambda>k u. ExecError), clock = (\<lambda>k. ''2024-01-01T00:00:00.000Z''),
       write_ok = (\<lambda>d f. True) \<rparr>"

definition steady_env :: env where
  "steady_env =
     \<lparr> exec = (\<lambda>k u. example_output (9 / 10)), clock = (\<lambda>k. ''2024-01-01T00:00:00.000Z''),
       write_ok = (\<lambda>d f. True) \<rparr>"

text \<open>Lighthouse succeeds, and every write is rejected.\<close>

definition unwritable_env :: env where
  "unwritable_env =
     \<lparr> exec = (\<lambda>k u. example_output (9 / 10)), clock = (\<lambda>k. ''2024-01-01T00:00:00.000Z''),
       write_ok = (\<lambda>d f. False) \<rparr>"

text \<open>A sample with the score 1 for \<^verbatim>\<open>seo\<close>.\<close>

definition low_sample :: sample where
  "low_sample =
     \<lparr> performance = 70, accessibility = 70, bestPractices = 70, seo = 1,
       timestamp = ''2024-01-01T00:00:00.000Z'' \<rparr>"

section \<open>Properties\<close>

subsection \<open>File names\<close>

lemma dash_not_alnum: "\<not> is_alnum CHR ''-''"
  by (simp add: is_alnum_def)

lemma dash_eq_iff: "dash a = dash b \<longleftrightarrow> a = b \<or> (\<not> is_alnum a \<and> \<not> is_alnum b)"
  using dash_not_alnum by (auto simp: dash_def)

lemma map_dash_eq_iff:
  "map dash xs = map dash ys \<longleftrightarrow>
     length xs = length ys \<and>
     (\<forall>i<length xs. xs ! i = ys ! i \<or> (\<not> is_alnum (xs ! i) \<and> \<not> is_alnum (ys ! i)))"
  by (auto simp: list_eq_iff_nth_eq dash_eq_iff)

lemma urlToFilename_example: "urlToFilename ''https://example.com/'' = ''example-com-.json''"
  by (simp add: urlToFilename_def dash_def is_alnum_def)

text \<open>
  C9, as stated, fails: two different URLs that differ in the scheme only have the same
  file name.
\<close>

theorem urlToFilename_collision:
  "''http://a.com'' \<noteq> ''https://a.com'' \<and>
   urlToFilename ''http://a.com'' = urlToFilename ''https://a.com''"
  by (simp add: urlToFilename_def)

text \<open>
  C9, amended: the file name is a function of the URL, and two URLs have the same file
  name exactly when, after the first \<^verbatim>\<open>http://\<close> or \<^verbatim>\<open>https://\<close> is removed, they have the
  same length and at every position either the same character or two characters outside
  \<^verbatim>\<open>[a-zA-Z0-9]\<close>.
\<close>

theorem urlToFilename_same_key_iff:
  "(u = v \<longrightarrow> urlToFilename u = urlToFilename v) \<and>
   (urlToFilename u = urlToFilename v \<longleftrightarrow>
      length (strip_scheme u) = length (strip_scheme v) \<and>
      (\<forall>i<length (strip_scheme u).
         strip_scheme u ! i = strip_scheme v ! i \<or>
         (\<not> is_alnum (strip_scheme u ! i) \<and> \<not> is_alnum (strip_scheme v ! i))))"
  by (simp add: urlToFilename_def map_dash_eq_iff)

theorem urlToFilename_same_key_iff_witness:
  "urlToFilename ''https://a.b/c'' = urlToFilename ''a/b.c'' \<and>
   urlToFilename ''https://a.com'' \<noteq> urlToFilename ''https://b.com''"
proof
  show "urlToFilename ''https://a.b/c'' = urlToFilename ''a/b.c''"
    using urlToFilename_same_key_iff [of "''https://a.b/c''" "''a/b.c''"]
    by (simp add: is_alnum_def less_Suc_eq eval_nat_numeral all_conj_distrib)
  show "urlToFilename ''https://a.com'' \<noteq> urlToFilename ''https://b.com''"
    using urlToFilename_same_key_iff [of "''https://a.com''" "''https://b.com''"]
    by (auto simp add: is_alnum_def)
qed

subsection \<open>Averages\<close>

lemma foldl_add_sum_list: "foldl (\<lambda>sum r. sum + f r) a rs = a + sum_list (map f rs)"
  by (induction rs arbitrary: a) (simp_all add: add.assoc)

lemma average_floor:
  "average f rs = \<lfloor>of_int (sum_list (map f rs)) / of_nat (length rs) + 1 / 2 :: rat\<rfloor>"
  by (simp add: average_def Math_round_def foldl_add_sum_list)

lemma rounded_mean_average: "rounded_mean (map f rs) (average f rs)"
proof -
  let ?q = "of_int (sum_list (map f rs)) / of_nat (length rs) :: rat"
  have "of_int \<lfloor>?q + 1 / 2\<rfloor> \<le> ?q + 1 / 2" and "?q + 1 / 2 < of_int \<lfloor>?q + 1 / 2\<rfloor> + 1"
    by linarith+
  then show ?thesis
    unfolding rounded_mean_def average_floor Let_def length_map by linarith
qed

lemma rounded_mean_unique: "rounded_mean xs k \<Longrightarrow> rounded_mean xs l \<Longrightarrow> k = l"
  unfolding rounded_mean_def Let_def
  by linarith

lemma sum_list_lower: "(\<forall>x\<in>set xs. lo \<le> x) \<Longrightarrow> lo * int (length xs) \<le> sum_list xs"
  by (induction xs) (auto simp: algebra_simps)

lemma sum_list_upper: "(\<forall>x\<in>set xs. x \<le> hi) \<Longrightarrow> sum_list xs \<le> hi * int (length xs)"
  by (induction xs) (auto simp: algebra_simps)

lemma average_bounds:
  assumes "rs \<noteq> []" and lo: "\<forall>r\<in>set rs. lo \<le> f r" and hi: "\<forall>r\<in>set rs. f r \<le> hi"
  shows "lo \<le> average f rs \<and> average f rs \<le> hi"
proof -
  let ?S = "sum_list (map f rs)" and ?n = "length rs"
  have n: "0 < (of_nat ?n :: rat)" using assms(1) by simp
  have "lo * int ?n \<le> ?S" using sum_list_lower [of "map f rs" lo] lo by simp
  then have "(of_int (lo * int ?n) :: rat) \<le> of_int ?S" by (simp only: of_int_le_iff)
  then have "(of_int lo :: rat) * of_nat ?n \<le> of_int ?S" by simp
  then have l: "(of_int lo :: rat) \<le> of_int ?S / of_nat ?n"
    using n by (simp add: pos_le_divide_eq)
  have "?S \<le> hi * int ?n" using sum_list_upper [of "map f rs" hi] hi by simp
  then have "(of_int ?S :: rat) \<le> of_int (hi * int ?n)" by (simp only: of_int_le_iff)
  then have "(of_int ?S :: rat) \<le> of_int hi * of_nat ?n" by simp
  then have h: "(of_int ?S :: rat) / of_nat ?n \<le> of_int hi"
    using n by (simp add: pos_divide_le_eq)
  have "lo \<le> \<lfloor>of_int ?S / of_nat ?n + 1 / 2 :: rat\<rfloor>"
    using l by (simp add: le_floor_iff)
  moreover have "\<lfloor>of_int ?S / of_nat ?n + 1 / 2 :: rat\<rfloor> \<le> hi"
    using h by (simp add: floor_le_iff)
  ultimately show ?thesis by (simp add: average_floor)
qed

lemma average_Min_Max:
  assumes "rs \<noteq> []"
  shows "Min (f ` set rs) \<le> average f rs \<and> average f rs \<le> Max (f ` set rs)"
  using average_bounds [OF assms, of "Min (f ` set rs)" f "Max (f ` set rs)"]
  by simp

lemma divide_Suc_le:
  "0 \<le> S \<Longrightarrow> 0 < n \<Longrightarrow> (of_int S :: rat) / of_nat (Suc n) \<le> of_int S / of_nat n"
  by (intro frac_le) simp_all

lemma average_zero_sample:
  assumes "f s = 0" and "\<forall>r\<in>set (xs @ ys). 0 \<le> f r" and "xs @ ys \<noteq> []"
  shows "average f (xs @ s # ys) \<le> average f (xs @ ys)"
proof -
  let ?S = "sum_list (map f (xs @ ys))" and ?n = "length (xs @ ys)"
  have "\<forall>x\<in>set (map f (xs @ ys)). 0 \<le> x" using assms(2) by auto
  from sum_list_lower [OF this] have S: "0 \<le> ?S" by simp
  have n: "0 < ?n" using assms(3) by simp
  have "(of_int ?S :: rat) / of_nat (Suc ?n) \<le> of_int ?S / of_nat ?n"
    using S n by (rule divide_Suc_le)
  then have "\<lfloor>of_int ?S / of_nat (Suc ?n) + 1 / 2 :: rat\<rfloor> \<le> \<lfloor>of_int ?S / of_nat ?n + 1 / 2 :: rat\<rfloor>"
    by (intro floor_mono) simp
  moreover have "sum_list (map f (xs @ s # ys)) = ?S" using assms(1) by simp
  moreover have "length (xs @ s # ys) = Suc ?n" by simp
  ultimately show ?thesis
    unfolding average_floor by (simp only:)
qed

text \<open>
  C1: for a non-empty list of samples, each of the four scores of the averaged record is
  the mean of that score over the samples, rounded to the nearest integer with a half
  going up, and \<^verbatim>\<open>runs\<close> is the number of samples.
\<close>

theorem averaged_of_rounded_mean:
  assumes "results \<noteq> []"
  shows "rounded_mean (map performance results) (performance (averaged_of u results now)) \<and>
         rounded_mean (map accessibility results) (accessibility (averaged_of u results now)) \<and>
         rounded_mean (map bestPractices results) (bestPractices (averaged_of u results now)) \<and>
         rounded_mean (map seo results) (seo (averaged_of u results now)) \<and>
         runs (averaged_of u results now) = length results"
  by (simp add: averaged_of_def rounded_mean_average)

text \<open>The scenario of the specification: performance 80, 90, 100 and 70 elsewhere.\<close>

theorem averaged_of_rounded_mean_witness:
  "[example_sample 80, example_sample 90, example_sample 100] \<noteq> [] \<and>
   performance (averaged_of ''https://example.com/''
     [example_sample 80, example_sample 90, example_sample 100] ''now'') = 90 \<and>
   accessibility (averaged_of ''https://example.com/''
     [example_sample 80, example_sample 90, example_sample 100] ''now'') = 70 \<and>
   bestPractices (averaged_of ''https://example.com/''
     [example_sample 80, example_sample 90, example_sample 100] ''now'') = 70 \<and>
   seo (averaged_of ''https://example.com/''
     [example_sample 80, example_sample 90, example_sample 100] ''now'') = 70 \<and>
   runs (averaged_of ''https://example.com/''
     [example_sample 80, example_sample 90, example_sample 100] ''now'') = 3"
proof -
  let ?rs = "[example_sample 80, example_sample 90, example_sample 100]"
  let ?a = "averaged_of ''https://example.com/'' ?rs ''now''"
  have ne: "?rs \<noteq> []" by simp
  note m = averaged_of_rounded_mean [OF ne, of "''https://example.com/''" "''now''"]
  have "rounded_mean (map performance ?rs) 90"
    and "rounded_mean (map accessibility ?rs) 70"
    and "rounded_mean (map bestPractices ?rs) 70"
    and "rounded_mean (map seo ?rs) 70"
    by (simp_all add: rounded_mean_def example_sample_def)
  with m have "performance ?a = 90" and "accessibility ?a = 70"
    and "bestPractices ?a = 70" and "seo ?a = 70"
    by (blast intro: rounded_mean_unique)+
  moreover from m have "runs ?a = 3" by simp
  ultimately show ?thesis by simp
qed

text \<open>
  C2: for a non-empty list of samples, each of the four averaged scores lies between the
  least and the greatest score of that category among the samples.
\<close>

theorem averaged_of_within_min_max:
  assumes "results \<noteq> []"
  shows "Min (performance ` set results) \<le> performance (averaged_of u results now) \<and>
         performance (averaged_of u results now) \<le> Max (performance ` set results) \<and>
         Min (accessibility ` set results) \<le> accessibility (averaged_of u results now) \<and>
         accessibility (averaged_of u results now) \<le> Max (accessibility ` set results) \<and>
         Min (bestPractices ` set results) \<le> bestPractices (averaged_of u results now) \<and>
         bestPractices (averaged_of u results now) \<le> Max (bestPractices ` set results) \<and>
         Min (seo ` set results) \<le> seo (averaged_of u results now) \<and>
         seo (averaged_of u results now) \<le> Max (seo ` set results)"
  using average_Min_Max [OF assms]
  by (simp add: averaged_of_def)

theorem averaged_of_within_min_max_witness:
  "[example_sample 95, example_sample 80] \<noteq> [] \<and>
   80 \<le> performance (averaged_of ''u'' [example_sample 95, example_sample 80] ''now'') \<and>
   performance (averaged_of ''u'' [example_sample 95, example_sample 80] ''now'') \<le> 95 \<and>
   seo (averaged_of ''u'' [example_sample 95, example_sample 80] ''now'') = 70"
proof -
  have ne: "[example_sample 95, example_sample 80] \<noteq> []" by simp
  show ?thesis
    using averaged_of_within_min_max [OF ne, of "''u''" "''now''"]
    by (simp add: example_sample_def)
qed

subsection \<open>Baseline and delta\<close>

text \<open>
  C3: with a baseline present, the delta has, for each of the four categories, the
  latest score minus the baseline score, as integers: nothing is clamped.
\<close>

theorem calculateDelta_differences:
  "calculateDelta latest (Some baseline) =
     Some \<lparr> performance = performance latest - performance baseline,
            accessibility = accessibility latest - accessibility baseline,
            bestPractices = bestPractices latest - bestPractices baseline,
            seo = seo latest - seo baseline \<rparr>"
  by (simp add: calculateDelta_def)

lemma Math_round_of_int: "Math_round (of_int k) = k"
  unfolding Math_round_def by linarith

lemma average_single: "average f [r] = f r"
  by (simp add: average_def Math_round_of_int)

lemma calculateDelta_examples:
  "map_option performance
     (calculateDelta (averaged_of ''u'' [example_sample 90] ''t1'')
                     (Some (averaged_of ''u'' [example_sample 85] ''t0''))) = Some 5"
  "map_option performance
     (calculateDelta (averaged_of ''u'' [example_sample 0] ''t1'')
                     (Some (averaged_of ''u'' [example_sample 100] ''t0''))) = Some (- 100)"
  by (simp_all add: calculateDelta_def averaged_of_def average_single example_sample_def)

text \<open>
  C4: when the baseline directory has no file for the URL, or the file there is not
  JSON, \<^verbatim>\<open>loadBaseline\<close> gives \<^verbatim>\<open>null\<close> and \<^verbatim>\<open>calculateDelta\<close> then gives \<^verbatim>\<open>null\<close>.
\<close>

theorem loadBaseline_absent_or_malformed:
  assumes "baselineDir w (urlToFilename u) = None \<or>
           baselineDir w (urlToFilename u) = Some Malformed"
  shows "loadBaseline u w = None \<and> calculateDelta current (loadBaseline u w) = None"
  using assms by (auto simp: loadBaseline_def calculateDelta_def)

theorem loadBaseline_absent_or_malformed_witness:
  "baselineDir example_world (urlToFilename ''https://example.com/'') = None \<and>
   loadBaseline ''https://example.com/'' example_world = None \<and>
   baselineDir (example_world\<lparr>baselineDir := [''example-com-.json'' \<mapsto> Malformed]\<rparr>)
     (urlToFilename ''https://example.com/'') = Some Malformed \<and>
   loadBaseline ''https://example.com/''
     (example_world\<lparr>baselineDir := [''example-com-.json'' \<mapsto> Malformed]\<rparr>) = None \<and>
   calculateDelta (averaged_of ''https://example.com/'' [example_sample 90] ''now'')
     (loadBaseline ''https://example.com/''
        (example_world\<lparr>baselineDir := [''example-com-.json'' \<mapsto> Malformed]\<rparr>)) = None"
proof -
  let ?w = "example_world\<lparr>baselineDir := [''example-com-.json'' \<mapsto> Malformed]\<rparr>"
  have a: "baselineDir example_world (urlToFilename ''https://example.com/'') = None"
    by (simp add: example_world_def)
  have b: "baselineDir ?w (urlToFilename ''https://example.com/'') = Some Malformed"
    by (simp add: urlToFilename_example)
  from a have "loadBaseline ''https://example.com/'' example_world = None"
    using loadBaseline_absent_or_malformed [of example_world "''https://example.com/''"]
    by blast
  moreover from b have "loadBaseline ''https://example.com/'' ?w = None \<and>
      calculateDelta (averaged_of ''https://example.com/'' [example_sample 90] ''now'')
        (loadBaseline ''https://example.com/'' ?w) = None"
    using loadBaseline_absent_or_malformed [of ?w "''https://example.com/''"]
    by blast
  ultimately show ?thesis using a b by blast
qed

subsection \<open>Sampling one URL\<close>

lemma lighthouse_sample_scores:
  "map_option scores.truncate (lighthouse_sample out now) = run_scores out"
  by (simp add: run_scores_def lighthouse_sample_def scores.truncate_def
      split: lh_run.splits option.splits)

lemma lighthouse_sample_None: "lighthouse_sample out now = None \<longleftrightarrow> run_scores out = None"
  using lighthouse_sample_scores [of out now] by (metis map_option_is_None)

lemma outcomes_0: "outcomes e u k 0 = []"
  by (simp add: outcomes_def)

lemma outcomes_Suc: "outcomes e u k (Suc n) = exec e k u # outcomes e u (Suc k) n"
proof -
  have "[0..<Suc n] = 0 # map Suc [0..<n]"
    by (simp add: map_Suc_upt upt_conv_Cons del: upt_Suc)
  then show ?thesis
    by (simp add: outcomes_def comp_def del: upt_Suc)
qed

lemma length_outcomes: "length (outcomes e u k n) = n"
  by (simp add: outcomes_def)

lemma runLighthouse_effect:
  assumes "runLighthouse e u w = (r, w')"
  shows "calls w' = calls w @ [u] \<and>
         run_scores (exec e (length (calls w)) u) = map_option scores.truncate r \<and>
         baselineDir w' = baselineDir w \<and> latestDir w' = latestDir w \<and>
         reportsDir w' = reportsDir w"
proof (cases "lighthouse_sample (exec e (length (calls w)) u) (clock e (ticks w))")
  case None
  with assms have "r = None" and "w' = w\<lparr>calls := calls w @ [u]\<rparr>"
    by (simp_all add: runLighthouse_def)
  with None show ?thesis by (simp add: lighthouse_sample_None)
next
  case (Some s)
  with assms have "r = Some s" and "w' = w\<lparr>calls := calls w @ [u], ticks := Suc (ticks w)\<rparr>"
    by (simp_all add: runLighthouse_def)
  with Some lighthouse_sample_scores [of "exec e (length (calls w)) u" "clock e (ticks w)"]
  show ?thesis by simp
qed

lemma sample_loop_effect:
  "sample_loop e u n acc w = (acc', w') \<Longrightarrow>
     calls w' = calls w @ replicate n u \<and>
     map scores.truncate acc' =
       map scores.truncate acc @ List.map_filter run_scores (outcomes e u (length (calls w)) n) \<and>
     baselineDir w' = baselineDir w \<and> latestDir w' = latestDir w \<and>
     reportsDir w' = reportsDir w"
proof (induction n arbitrary: acc w)
  case 0
  then show ?case by (simp add: outcomes_0)
next
  case (Suc n)
  obtain r w1 where r: "runLighthouse e u w = (r, w1)" by (cases "runLighthouse e u w")
  note eff = runLighthouse_effect [OF r]
  from eff have len: "length (calls w1) = Suc (length (calls w))" by simp
  show ?case
  proof (cases r)
    case None
    with Suc.prems r have "sample_loop e u n acc w1 = (acc', w')" by simp
    from Suc.IH [OF this] eff None len show ?thesis
      by (simp add: outcomes_Suc replicate_app_Cons_same)
  next
    case (Some s)
    with Suc.prems r have "sample_loop e u n (acc @ [s]) w1 = (acc', w')" by simp
    from Suc.IH [OF this] eff Some len show ?thesis
      by (simp add: outcomes_Suc replicate_app_Cons_same)
  qed
qed

lemma map_filter_empty_iff: "List.map_filter f xs = [] \<longleftrightarrow> (\<forall>x\<in>set xs. f x = None)"
  by (induction xs) (auto split: option.splits)

lemma length_map_filter: "length (List.map_filter f xs) = length (filter (\<lambda>x. f x \<noteq> None) xs)"
  by (induction xs) (auto split: option.splits)

lemma runMultipleLighthouse_effect:
  assumes "runMultipleLighthouse e u nruns w = (r, w')"
  shows "calls w' = calls w @ replicate (case nruns of None \<Rightarrow> 3 | Some n \<Rightarrow> n) u \<and>
         baselineDir w' = baselineDir w \<and> latestDir w' = latestDir w \<and>
         reportsDir w' = reportsDir w \<and>
         (case r of
            None \<Rightarrow>
              List.map_filter run_scores
                (outcomes e u (length (calls w)) (case nruns of None \<Rightarrow> 3 | Some n \<Rightarrow> n)) = []
          | Some a \<Rightarrow>
              rawResults a \<noteq> [] \<and>
              map scores.truncate (rawResults a) =
                List.map_filter run_scores
                  (outcomes e u (length (calls w)) (case nruns of None \<Rightarrow> 3 | Some n \<Rightarrow> n)) \<and>
              a = averaged_of u (rawResults a) (timestamp a))"
proof -
  let ?n = "case nruns of None \<Rightarrow> 3 | Some n \<Rightarrow> n"
  obtain rs w1 where l: "sample_loop e u ?n [] w = (rs, w1)" by (cases "sample_loop e u ?n [] w")
  note eff = sample_loop_effect [OF l]
  show ?thesis
  proof (cases "rs = []")
    case True
    with assms l have "r = None" "w' = w1" by (simp_all add: runMultipleLighthouse_def)
    with eff True show ?thesis by simp
  next
    case False
    with assms l have r: "r = Some (averaged_of u rs (clock e (ticks w1)))"
      and w': "w' = w1\<lparr>ticks := Suc (ticks w1)\<rparr>"
      by (simp_all add: runMultipleLighthouse_def)
    from eff False r w' show ?thesis by (simp add: averaged_of_def)
  qed
qed

text \<open>
  C5: \<^verbatim>\<open>runMultipleLighthouse\<close> invokes Lighthouse for the URL exactly \<open>n\<close> times, one
  after the other, where \<open>n\<close> is 3 when the argument is left out. It returns \<^verbatim>\<open>null\<close>
  exactly when every invocation failed; otherwise its raw results are the scores of the
  invocations that succeeded, in order, \<^verbatim>\<open>runs\<close> is their number and the scores are
  averaged over them. With three invocations of which exactly one fails, the record has
  \<^verbatim>\<open>runs\<close> = 2 and the averages of the two samples.
\<close>

theorem runMultipleLighthouse_sampling:
  assumes "runMultipleLighthouse e u nruns w = (r, w')"
    and "n = (case nruns of None \<Rightarrow> 3 | Some m \<Rightarrow> m)"
    and "outs = outcomes e u (length (calls w)) n"
  shows "calls w' = calls w @ replicate n u \<and>
         (nruns = None \<longrightarrow> n = 3) \<and>
         (r = None \<longleftrightarrow> (\<forall>out\<in>set outs. run_scores out = None)) \<and>
         (\<forall>a. r = Some a \<longrightarrow>
            map scores.truncate (rawResults a) = List.map_filter run_scores outs \<and>
            runs a = length (filter (\<lambda>out. run_scores out \<noteq> None) outs) \<and>
            a = averaged_of u (rawResults a) (timestamp a)) \<and>
         (n = 3 \<and> length (filter (\<lambda>out. run_scores out = None) outs) = 1 \<longrightarrow>
            (\<exists>a. r = Some a \<and> runs a = 2 \<and> length (rawResults a) = 2 \<and>
                 performance a = average performance (rawResults a) \<and>
                 accessibility a = average accessibility (rawResults a) \<and>
                 bestPractices a = average bestPractices (rawResults a) \<and>
                 seo a = average seo (rawResults a)))"
proof -
  note eff = runMultipleLighthouse_effect [OF assms(1), folded assms(2), folded assms(3)]
  have calls: "calls w' = calls w @ replicate n u" using eff by simp
  have some: "map scores.truncate (rawResults a) = List.map_filter run_scores outs \<and>
      runs a = length (filter (\<lambda>out. run_scores out \<noteq> None) outs) \<and>
      a = averaged_of u (rawResults a) (timestamp a) \<and> rawResults a \<noteq> []"
    if "r = Some a" for a
  proof -
    from that eff have m: "map scores.truncate (rawResults a) = List.map_filter run_scores outs"
      and a: "a = averaged_of u (rawResults a) (timestamp a)" and ne: "rawResults a \<noteq> []"
      by simp_all
    from a have "runs a = length (rawResults a)"
      by (metis averaged_of_def averaged.select_convs(2))
    also have "\<dots> = length (map scores.truncate (rawResults a))" by simp
    also have "\<dots> = length (filter (\<lambda>out. run_scores out \<noteq> None) outs)"
      by (simp only: m length_map_filter)
    finally show ?thesis using m a ne by blast
  qed
  have none: "r = None \<longleftrightarrow> (\<forall>out\<in>set outs. run_scores out = None)"
  proof (cases r)
    case None
    with eff show ?thesis by (simp add: map_filter_empty_iff)
  next
    case (Some a)
    from some [OF Some] have "List.map_filter run_scores outs \<noteq> []" by auto
    with Some show ?thesis by (simp add: map_filter_empty_iff)
  qed
  have two: "\<exists>a. r = Some a \<and> runs a = 2 \<and> length (rawResults a) = 2 \<and>
                 performance a = average performance (rawResults a) \<and>
                 accessibility a = average accessibility (rawResults a) \<and>
                 bestPractices a = average bestPractices (rawResults a) \<and>
                 seo a = average seo (rawResults a)"
    if n: "n = 3" and one: "length (filter (\<lambda>out. run_scores out = None) outs) = 1"
  proof -
    have "length outs = 3" using assms(3) n by (simp add: length_outcomes)
    with one sum_length_filter_compl [of "\<lambda>out. run_scores out = None" outs]
    have ok: "length (filter (\<lambda>out. run_scores out \<noteq> None) outs) = 2" by simp
    then have "filter (\<lambda>out. run_scores out \<noteq> None) outs \<noteq> []"
      by (metis length_0_conv zero_neq_numeral)
    then have "\<not> (\<forall>out\<in>set outs. run_scores out = None)"
      unfolding filter_empty_conv by simp
    with none obtain a where r: "r = Some a" by auto
    note s = some [OF r]
    from s ok have runs: "runs a = 2" by simp
    from s have "runs a = length (rawResults a)"
      by (metis averaged_of_def averaged.select_convs(2))
    with runs have len: "length (rawResults a) = 2" by simp
    from s have a: "a = averaged_of u (rawResults a) (timestamp a)" by simp
    have "performance a = average performance (rawResults a)"
      "accessibility a = average accessibility (rawResults a)"
      "bestPractices a = average bestPractices (rawResults a)"
      "seo a = average seo (rawResults a)"
      by (subst a, simp add: averaged_of_def)+
    with r runs len show ?thesis by blast
  qed
  from calls none some two assms(2) show ?thesis by (auto split: option.splits)
qed

lemma flaky_one_failure:
  "length (filter (\<lambda>out. run_scores out = None)
     (outcomes flaky_env ''https://example.com/'' (length (calls example_world)) 3)) = 1"
  by code_simp

lemma flaky_performance:
  "map_option performance
     (fst (runMultipleLighthouse flaky_env ''https://example.com/'' None example_world)) = Some 88"
  by code_simp

theorem runMultipleLighthouse_sampling_witness:
  "calls (snd (runMultipleLighthouse flaky_env ''https://example.com/'' None example_world)) =
     [''https://example.com/'', ''https://example.com/'', ''https://example.com/''] \<and>
   (\<exists>a. fst (runMultipleLighthouse flaky_env ''https://example.com/'' None example_world) = Some a \<and>
        runs a = 2 \<and> length (rawResults a) = 2 \<and> performance a = 88)"
proof -
  let ?u = "''https://example.com/''"
  obtain r w' where eq: "runMultipleLighthouse flaky_env ?u None example_world = (r, w')"
    by (cases "runMultipleLighthouse flaky_env ?u None example_world")
  note t = runMultipleLighthouse_sampling [OF eq refl refl]
  from t have c: "calls w' = [?u, ?u, ?u]"
    by (simp add: example_world_def numeral_3_eq_3)
  from t flaky_one_failure obtain a where a: "r = Some a" "runs a = 2" "length (rawResults a) = 2"
    by auto
  with flaky_performance eq have "performance a = 88" by simp
  with a c eq show ?thesis by simp
qed

lemma scenario_averaged:
  "map_option (\<lambda>a. (url a, performance a, accessibility a, bestPractices a, seo a, runs a))
     (fst (runMultipleLighthouse scenario_env ''https://example.com/'' None example_world)) =
   Some (''https://example.com/'', 90, 70, 70, 70, 3)"
  by code_simp

subsection \<open>The loop over the URLs\<close>

lemma sample_urls_acc:
  "sample_urls e us acc w = (acc @ fst (sample_urls e us [] w), snd (sample_urls e us [] w))"
proof (induction us arbitrary: acc w)
  case Nil
  then show ?case by simp
next
  case (Cons u us)
  obtain r w1 where r: "runMultipleLighthouse e u None w = (r, w1)"
    by (cases "runMultipleLighthouse e u None w")
  show ?case
  proof (cases r)
    case None
    with r Cons.IH [of acc w1] show ?thesis by simp
  next
    case (Some a)
    with r Cons.IH [of "acc @ [a]" w1] Cons.IH [of "[a]" w1] show ?thesis by simp
  qed
qed

lemma sample_urls_Cons:
  assumes "runMultipleLighthouse e u None w = (r, w1)"
  shows "sample_urls e (u # us) [] w =
           ((case r of None \<Rightarrow> [] | Some a \<Rightarrow> [a]) @ fst (sample_urls e us [] w1),
            snd (sample_urls e us [] w1))"
proof (cases r)
  case None
  with assms show ?thesis by simp
next
  case (Some a)
  with assms sample_urls_acc [of e us "[a]" w1] show ?thesis by simp
qed

lemma sample_urls_append:
  assumes "sample_urls e us [] w = (rs1, w1)"
  shows "sample_urls e (us @ vs) [] w =
           (rs1 @ fst (sample_urls e vs [] w1), snd (sample_urls e vs [] w1))"
  using assms
proof (induction us arbitrary: w rs1)
  case Nil
  then show ?case by simp
next
  case (Cons u us)
  obtain r w0 where r: "runMultipleLighthouse e u None w = (r, w0)"
    by (cases "runMultipleLighthouse e u None w")
  obtain rs0 where rs0: "sample_urls e us [] w0 = (rs0, w1)"
    using Cons.prems sample_urls_Cons [OF r, of us] by (cases "sample_urls e us [] w0") simp
  have rs1: "rs1 = (case r of None \<Rightarrow> [] | Some a \<Rightarrow> [a]) @ rs0"
    using Cons.prems sample_urls_Cons [OF r, of us] rs0 by simp
  from Cons.IH [OF rs0] sample_urls_Cons [OF r, of "us @ vs"] rs1
  show ?case by simp
qed

lemma sample_urls_effect:
  assumes "sample_urls e us [] w = (rs, w')"
  shows "calls w' = calls w @ concat (map (replicate 3) us) \<and>
         baselineDir w' = baselineDir w \<and> latestDir w' = latestDir w \<and>
         reportsDir w' = reportsDir w \<and> (\<forall>a\<in>set rs. url a \<in> set us)"
  using assms
proof (induction us arbitrary: w rs)
  case Nil
  then show ?case by simp
next
  case (Cons u us)
  obtain r w0 where r: "runMultipleLighthouse e u None w = (r, w0)"
    by (cases "runMultipleLighthouse e u None w")
  note eff = runMultipleLighthouse_effect [OF r]
  obtain rs0 where rs0: "sample_urls e us [] w0 = (rs0, w')"
    using Cons.prems sample_urls_Cons [OF r, of us] by (cases "sample_urls e us [] w0") simp
  have rs: "rs = (case r of None \<Rightarrow> [] | Some a \<Rightarrow> [a]) @ rs0"
    using Cons.prems sample_urls_Cons [OF r, of us] rs0 by simp
  have "\<forall>a\<in>set (case r of None \<Rightarrow> [] | Some a \<Rightarrow> [a]). url a = u"
  proof (cases r)
    case None
    then show ?thesis by simp
  next
    case (Some a)
    with eff have "a = averaged_of u (rawResults a) (timestamp a)" by simp
    then have "url a = u" by (metis averaged_of_def averaged.select_convs(1))
    with Some show ?thesis by simp
  qed
  with Cons.IH [OF rs0] eff rs show ?case by auto
qed

lemma sample_urls_empty_iff:
  "fst (sample_urls e us [] w) = [] \<longleftrightarrow>
     (\<forall>k<length us. \<forall>i<3. run_scores (exec e (length (calls w) + 3 * k + i) (us ! k)) = None)"
proof (induction us arbitrary: w)
  case Nil
  then show ?case by simp
next
  case (Cons u us)
  obtain r w0 where r: "runMultipleLighthouse e u None w = (r, w0)"
    by (cases "runMultipleLighthouse e u None w")
  note eff = runMultipleLighthouse_effect [OF r]
  from eff have len: "length (calls w0) = length (calls w) + 3" by simp
  have none: "r = None \<longleftrightarrow> (\<forall>i<3. run_scores (exec e (length (calls w) + i) u) = None)"
  proof (cases r)
    case None
    with eff have "List.map_filter run_scores (outcomes e u (length (calls w)) 3) = []" by simp
    then have "\<forall>i<3. run_scores (exec e (length (calls w) + i) u) = None"
      by (simp add: map_filter_empty_iff outcomes_def)
    with None show ?thesis by simp
  next
    case (Some a)
    with eff have "List.map_filter run_scores (outcomes e u (length (calls w)) 3) \<noteq> []" by auto
    then have "\<not> (\<forall>i<3. run_scores (exec e (length (calls w) + i) u) = None)"
      by (auto simp add: map_filter_empty_iff outcomes_def)
    with Some show ?thesis by simp
  qed
  have "fst (sample_urls e (u # us) [] w) = [] \<longleftrightarrow> r = None \<and> fst (sample_urls e us [] w0) = []"
    using sample_urls_Cons [OF r, of us] by (cases r) simp_all
  also have "\<dots> \<longleftrightarrow> (\<forall>i<3. run_scores (exec e (length (calls w) + i) u) = None) \<and>
      (\<forall>k<length us. \<forall>i<3. run_scores (exec e (length (calls w) + 3 * Suc k + i) (us ! k)) = None)"
    using none Cons.IH [of w0] len by (simp add: add.assoc add.commute add.left_commute)
  also have "\<dots> \<longleftrightarrow> (\<forall>k<length (u # us). \<forall>i<3.
      run_scores (exec e (length (calls w) + 3 * k + i) ((u # us) ! k)) = None)"
    by (simp add: All_less_Suc2)
  finally show ?case .
qed
subsection \<open>The store\<close>

lemma find_snoc:
  "find P (xs @ [x]) = (case find P xs of None \<Rightarrow> if P x then Some x else None | Some y \<Rightarrow> Some y)"
  by (induction xs) simp_all

lemma find_Some_set: "find P xs = Some x \<Longrightarrow> x \<in> set xs"
  by (induction xs) (auto split: if_splits)

lemma find_rev_distinct:
  assumes "distinct (map g xs)" and "a \<in> set xs"
  shows "find (\<lambda>x. g x = g a) (rev xs) = Some a"
proof (cases "find (\<lambda>x. g x = g a) (rev xs)")
  case None
  with assms(2) show ?thesis by (auto simp: find_None_iff)
next
  case (Some x)
  then have "x \<in> set xs" and "g x = g a"
    using find_Some_set [OF Some] by (auto simp: find_Some_iff)
  with assms have "x = a" by (meson distinct_map inj_onD)
  with Some show ?thesis by simp
qed

lemma takeWhile_all: "(\<forall>x\<in>set xs. P x) \<Longrightarrow> takeWhile P xs = xs"
  by (induction xs) simp_all

lemma saveResults_error_True:
  "fst (saveResults e rs True w) = None \<longleftrightarrow>
     (\<forall>a\<in>set rs. write_ok e Baseline (urlToFilename (url a)))"
  by (induction rs arbitrary: w) (simp_all add: Let_def)

lemma saveResults_error_False:
  "fst (saveResults e rs False w) = None \<longleftrightarrow>
     (\<forall>a\<in>set rs. write_ok e Latest (urlToFilename (url a)))"
  by (induction rs arbitrary: w) (simp_all add: Let_def)

lemma saveResults_error:
  "fst (saveResults e rs b w) = None \<longleftrightarrow>
     (\<forall>a\<in>set rs. write_ok e (if b then Baseline else Latest) (urlToFilename (url a)))"
  by (cases b) (simp_all add: saveResults_error_True saveResults_error_False)

lemma saveResults_baseline:
  "baselineDir (snd (saveResults e rs True w)) k =
     (case find (\<lambda>a. urlToFilename (url a) = k)
             (rev (takeWhile (\<lambda>a. write_ok e Baseline (urlToFilename (url a))) rs)) of
        None \<Rightarrow> baselineDir w k
      | Some a \<Rightarrow> Some (Json a))"
  by (induction rs arbitrary: w) (auto simp: find_snoc Let_def split: option.splits)

lemma saveResults_latest:
  "latestDir (snd (saveResults e rs False w)) k =
     (case find (\<lambda>a. urlToFilename (url a) = k)
             (rev (takeWhile (\<lambda>a. write_ok e Latest (urlToFilename (url a))) rs)) of
        None \<Rightarrow> latestDir w k
      | Some a \<Rightarrow> Some (Json a))"
  by (induction rs arbitrary: w) (auto simp: find_snoc Let_def split: option.splits)

lemma saveResults_frame_True:
  "calls (snd (saveResults e rs True w)) = calls w \<and>
   ticks (snd (saveResults e rs True w)) = ticks w \<and>
   reportsDir (snd (saveResults e rs True w)) = reportsDir w \<and>
   latestDir (snd (saveResults e rs True w)) = latestDir w"
  by (induction rs arbitrary: w) (simp_all add: Let_def)

lemma saveResults_frame_False:
  "calls (snd (saveResults e rs False w)) = calls w \<and>
   ticks (snd (saveResults e rs False w)) = ticks w \<and>
   reportsDir (snd (saveResults e rs False w)) = reportsDir w \<and>
   baselineDir (snd (saveResults e rs False w)) = baselineDir w"
  by (induction rs arbitrary: w) (simp_all add: Let_def)

lemma loadBaseline_cong: "baselineDir w1 = baselineDir w \<Longrightarrow> loadBaseline u w1 = loadBaseline u w"
  by (simp add: loadBaseline_def)

lemma generateReports_error:
  "fst (generateReports e rs w) = None \<longleftrightarrow> (\<forall>a\<in>set rs. write_ok e Reports (report_name a))"
  by (induction rs arbitrary: w) (simp_all add: Let_def report_name_def)

lemma generateReports_frame:
  "calls (snd (generateReports e rs w)) = calls w \<and>
   ticks (snd (generateReports e rs w)) = ticks w \<and>
   baselineDir (snd (generateReports e rs w)) = baselineDir w \<and>
   latestDir (snd (generateReports e rs w)) = latestDir w"
  by (induction rs arbitrary: w) (simp_all add: Let_def)

lemma generateReports_reports:
  "reportsDir (snd (generateReports e rs w)) k =
     (case find (\<lambda>a. report_name a = k)
             (rev (takeWhile (\<lambda>a. write_ok e Reports (report_name a)) rs)) of
        None \<Rightarrow> reportsDir w k
      | Some a \<Rightarrow>
          Some (Html a (loadBaseline (url a) w) (calculateDelta a (loadBaseline (url a) w))))"
proof (induction rs arbitrary: w)
  case Nil
  then show ?case by simp
next
  case (Cons r rs)
  let ?page = "Html r (loadBaseline (url r) w) (calculateDelta r (loadBaseline (url r) w))"
  let ?w1 = "w\<lparr>reportsDir := (reportsDir w)(report_name r \<mapsto> ?page)\<rparr>"
  show ?case
  proof (cases "write_ok e Reports (report_name r)")
    case False
    then show ?thesis by (simp add: Let_def report_name_def)
  next
    case True
    have lb: "loadBaseline u ?w1 = loadBaseline u w" for u by (simp add: loadBaseline_def)
    from True have "generateReports e (r # rs) w = generateReports e rs ?w1"
      by (simp add: Let_def report_name_def)
    with Cons.IH [of ?w1] True show ?thesis
      by (auto simp: find_snoc lb split: option.splits)
  qed
qed

subsection \<open>The run\<close>

lemma run_unfold:
  assumes "sample_urls e urls [] w = (results, w1)"
  shows "run e ub urls w =
    (if results = [] then (1, w1)
     else if ub
     then (if fst (saveResults e results True w1) = None then 0 else 1,
           snd (saveResults e results True w1))
     else if fst (saveResults e results False w1) \<noteq> None
     then (1, snd (saveResults e results False w1))
     else (if fst (generateReports e results (snd (saveResults e results False w1))) = None
           then 0 else 1,
           snd (generateReports e results (snd (saveResults e results False w1)))))"
  using assms by (auto simp: run_def split: prod.splits option.splits)

lemma run_outcome:
  assumes run: "run e ub urls w = (code, w')"
    and rs: "sample_urls e urls [] w = (results, w1)"
  shows "code =
           (if results = [] \<or>
               (\<exists>a\<in>set results.
                  \<not> write_ok e (if ub then Baseline else Latest) (urlToFilename (url a)) \<or>
                  (\<not> ub \<and> \<not> write_ok e Reports (report_name a)))
            then 1 else 0)"
    and "baselineDir w' k =
           (if ub
            then (case find (\<lambda>a. urlToFilename (url a) = k)
                         (rev (takeWhile (\<lambda>a. write_ok e Baseline (urlToFilename (url a))) results)) of
                    None \<Rightarrow> baselineDir w k
                  | Some a \<Rightarrow> Some (Json a))
            else baselineDir w k)"
    and "latestDir w' k =
           (if ub then latestDir w k
            else (case find (\<lambda>a. urlToFilename (url a) = k)
                         (rev (takeWhile (\<lambda>a. write_ok e Latest (urlToFilename (url a))) results)) of
                    None \<Rightarrow> latestDir w k
                  | Some a \<Rightarrow> Some (Json a)))"
    and "reportsDir w' k =
           (if \<not> ub \<and> (\<forall>a\<in>set results. write_ok e Latest (urlToFilename (url a)))
            then (case find (\<lambda>a. report_name a = k)
                         (rev (takeWhile (\<lambda>a. write_ok e Reports (report_name a)) results)) of
                    None \<Rightarrow> reportsDir w k
                  | Some a \<Rightarrow>
                      Some (Html a (loadBaseline (url a) w)
                              (calculateDelta a (loadBaseline (url a) w))))
            else reportsDir w k)"
    and "calls w' = calls w @ concat (map (replicate 3) urls)"
proof -
  from sample_urls_effect [OF rs]
  have c: "calls w1 = calls w @ concat (map (replicate 3) urls)"
    and b: "baselineDir w1 = baselineDir w" and l: "latestDir w1 = latestDir w"
    and p: "reportsDir w1 = reportsDir w" by simp_all
  let ?sT = "saveResults e results True w1" and ?sF = "saveResults e results False w1"
  let ?g = "generateReports e results (snd ?sF)"
  note u = run [unfolded run_unfold [OF rs]]
  have bF: "baselineDir (snd ?sF) = baselineDir w"
    using saveResults_frame_False [of e results w1] b by simp
  have lb: "loadBaseline x (snd ?sF) = loadBaseline x w" for x
    using bF by (rule loadBaseline_cong)
  consider (empty) "results = []"
    | (base) "results \<noteq> []" "ub"
    | (stop) "results \<noteq> []" "\<not> ub" "fst ?sF \<noteq> None"
    | (full) "results \<noteq> []" "\<not> ub" "fst ?sF = None"
    by blast
  then have "code =
           (if results = [] \<or>
               (\<exists>a\<in>set results.
                  \<not> write_ok e (if ub then Baseline else Latest) (urlToFilename (url a)) \<or>
                  (\<not> ub \<and> \<not> write_ok e Reports (report_name a)))
            then 1 else 0) \<and>
         baselineDir w' k =
           (if ub
            then (case find (\<lambda>a. urlToFilename (url a) = k)
                         (rev (takeWhile (\<lambda>a. write_ok e Baseline (urlToFilename (url a))) results)) of
                    None \<Rightarrow> baselineDir w k
                  | Some a \<Rightarrow> Some (Json a))
            else baselineDir w k) \<and>
         latestDir w' k =
           (if ub then latestDir w k
            else (case find (\<lambda>a. urlToFilename (url a) = k)
                         (rev (takeWhile (\<lambda>a. write_ok e Latest (urlToFilename (url a))) results)) of
                    None \<Rightarrow> latestDir w k
                  | Some a \<Rightarrow> Some (Json a))) \<and>
         reportsDir w' k =
           (if \<not> ub \<and> (\<forall>a\<in>set results. write_ok e Latest (urlToFilename (url a)))
            then (case find (\<lambda>a. report_name a = k)
                         (rev (takeWhile (\<lambda>a. write_ok e Reports (report_name a)) results)) of
                    None \<Rightarrow> reportsDir w k
                  | Some a \<Rightarrow>
                      Some (Html a (loadBaseline (url a) w)
                              (calculateDelta a (loadBaseline (url a) w))))
            else reportsDir w k) \<and>
         calls w' = calls w @ concat (map (replicate 3) urls)"
  proof cases
    case empty
    with u have "code = 1" "w' = w1" by simp_all
    with empty c b l p show ?thesis by simp
  next
    case base
    with u have code: "code = (if fst ?sT = None then 0 else 1)" and w': "w' = snd ?sT"
      by simp_all
    from code base have 1: "code = (if results = [] \<or>
               (\<exists>a\<in>set results.
                  \<not> write_ok e (if ub then Baseline else Latest) (urlToFilename (url a)) \<or>
                  (\<not> ub \<and> \<not> write_ok e Reports (report_name a)))
            then 1 else 0)"
      by (simp add: saveResults_error_True)
    from saveResults_baseline [of e results w1 k, unfolded b] saveResults_frame_True [of e results w1]
      c l p base 1 show ?thesis unfolding w' by simp
  next
    case stop
    with u have code: "code = 1" and w': "w' = snd ?sF" by simp_all
    from stop have no: "\<not> (\<forall>a\<in>set results. write_ok e Latest (urlToFilename (url a)))"
      by (simp add: saveResults_error_False)
    with code stop have 1: "code = (if results = [] \<or>
               (\<exists>a\<in>set results.
                  \<not> write_ok e (if ub then Baseline else Latest) (urlToFilename (url a)) \<or>
                  (\<not> ub \<and> \<not> write_ok e Reports (report_name a)))
            then 1 else 0)"
      by auto
    from saveResults_latest [of e results w1 k, unfolded l] saveResults_frame_False [of e results w1]
      c b p stop no 1 show ?thesis unfolding w' by auto
  next
    case full
    with u have code: "code = (if fst ?g = None then 0 else 1)" and w': "w' = snd ?g"
      by simp_all
    from full have ok: "\<forall>a\<in>set results. write_ok e Latest (urlToFilename (url a))"
      by (simp add: saveResults_error_False)
    with code full have 1: "code = (if results = [] \<or>
               (\<exists>a\<in>set results.
                  \<not> write_ok e (if ub then Baseline else Latest) (urlToFilename (url a)) \<or>
                  (\<not> ub \<and> \<not> write_ok e Reports (report_name a)))
            then 1 else 0)"
      by (auto simp: generateReports_error)
    have r: "reportsDir (snd ?sF) = reportsDir w" and cs: "calls (snd ?sF) = calls w1"
      using saveResults_frame_False [of e results w1] p by simp_all
    from generateReports_reports [of e results "snd ?sF" k, unfolded lb r]
      generateReports_frame [of e results "snd ?sF"]
      saveResults_latest [of e results w1 k, unfolded l] bF cs c full ok 1
    show ?thesis unfolding w' by simp
  qed
  then show "code =
           (if results = [] \<or>
               (\<exists>a\<in>set results.
                  \<not> write_ok e (if ub then Baseline else Latest) (urlToFilename (url a)) \<or>
                  (\<not> ub \<and> \<not> write_ok e Reports (report_name a)))
            then 1 else 0)"
    and "baselineDir w' k =
           (if ub
            then (case find (\<lambda>a. urlToFilename (url a) = k)
                         (rev (takeWhile (\<lambda>a. write_ok e Baseline (urlToFilename (url a))) results)) of
                    None \<Rightarrow> baselineDir w k
                  | Some a \<Rightarrow> Some (Json a))
            else baselineDir w k)"
    and "latestDir w' k =
           (if ub then latestDir w k
            else (case find (\<lambda>a. urlToFilename (url a) = k)
                         (rev (takeWhile (\<lambda>a. write_ok e Latest (urlToFilename (url a))) results)) of
                    None \<Rightarrow> latestDir w k
                  | Some a \<Rightarrow> Some (Json a)))"
    and "reportsDir w' k =
           (if \<not> ub \<and> (\<forall>a\<in>set results. write_ok e Latest (urlToFilename (url a)))
            then (case find (\<lambda>a. report_name a = k)
                         (rev (takeWhile (\<lambda>a. write_ok e Reports (report_name a)) results)) of
                    None \<Rightarrow> reportsDir w k
                  | Some a \<Rightarrow>
                      Some (Html a (loadBaseline (url a) w)
                              (calculateDelta a (loadBaseline (url a) w))))
            else reportsDir w k)"
    and "calls w' = calls w @ concat (map (replicate 3) urls)"
    by blast+
qed

lemma run_new_files:
  assumes run: "run e ub urls w = (code, w')"
    and rs: "sample_urls e urls [] w = (results, w1)"
  shows "(baselineDir w' k = Some (Json a) \<longrightarrow> baselineDir w k = Some (Json a) \<or> a \<in> set results) \<and>
         (latestDir w' k = Some (Json a) \<longrightarrow> latestDir w k = Some (Json a) \<or> a \<in> set results) \<and>
         (reportsDir w' k = Some (Html a b d) \<longrightarrow>
            reportsDir w k = Some (Html a b d) \<or> a \<in> set results)"
proof -
  have in_results: "x \<in> set results" if "find P (rev (takeWhile Q results)) = Some x" for P Q x
    using find_Some_set [OF that] set_takeWhileD by fastforce
  show ?thesis
    using run_outcome(2) [OF run rs, of k] run_outcome(3) [OF run rs, of k]
      run_outcome(4) [OF run rs, of k] in_results
    by (auto split: if_splits option.splits)
qed

text \<open>
  C6: when the three invocations for a URL \<open>u\<close> of the list all fail,
  \<^verbatim>\<open>runMultipleLighthouse\<close> returns \<^verbatim>\<open>null\<close> for it; the URLs after it are still sampled,
  and the results of the run are those of the URLs before it followed by those of the
  URLs after it. The exit code and the three directories after the run are exactly what
  saving these results gives: each is written in turn, up to the first rejected write,
  under the file name of its URL into \<^verbatim>\<open>baseline/\<close> or \<^verbatim>\<open>latest/\<close>, and in the normal
  mode its report into \<^verbatim>\<open>reports/\<close>. So with no write rejected and different file
  names every result of another URL is stored, and, if \<open>u\<close> occurs once in the list,
  nothing with the URL \<open>u\<close> is written to any of the three directories.
\<close>

theorem run_sampling_failure:
  assumes fail: "\<forall>i<3. run_scores (exec e (length (calls w) + 3 * length us + i) u) = None"
    and run: "run e updateBaseline (us @ u # vs) w = (code, w')"
    and s1: "sample_urls e us [] w = (rs1, w1)"
    and s2: "runMultipleLighthouse e u None w1 = (r, w2)"
    and s3: "sample_urls e vs [] w2 = (rs2, w3)"
  shows "r = None \<and>
         sample_urls e (us @ u # vs) [] w = (rs1 @ rs2, w3) \<and>
         calls w' = calls w @ concat (map (replicate 3) (us @ u # vs)) \<and>
         (\<forall>a\<in>set (rs1 @ rs2). url a \<in> set us \<union> set vs) \<and>
         code =
           (if rs1 @ rs2 = [] \<or>
               (\<exists>a\<in>set (rs1 @ rs2).
                  \<not> write_ok e (if updateBaseline then Baseline else Latest)
                       (urlToFilename (url a)) \<or>
                  (\<not> updateBaseline \<and> \<not> write_ok e Reports (report_name a)))
            then 1 else 0) \<and>
         (\<forall>k. baselineDir w' k =
            (if updateBaseline
             then (case find (\<lambda>a. urlToFilename (url a) = k)
                          (rev (takeWhile (\<lambda>a. write_ok e Baseline (urlToFilename (url a)))
                             (rs1 @ rs2))) of
                     None \<Rightarrow> baselineDir w k
                   | Some a \<Rightarrow> Some (Json a))
             else baselineDir w k)) \<and>
         (\<forall>k. latestDir w' k =
            (if updateBaseline then latestDir w k
             else (case find (\<lambda>a. urlToFilename (url a) = k)
                          (rev (takeWhile (\<lambda>a. write_ok e Latest (urlToFilename (url a)))
                             (rs1 @ rs2))) of
                     None \<Rightarrow> latestDir w k
                   | Some a \<Rightarrow> Some (Json a)))) \<and>
         (\<forall>k. reportsDir w' k =
            (if \<not> updateBaseline \<and>
                (\<forall>a\<in>set (rs1 @ rs2). write_ok e Latest (urlToFilename (url a)))
             then (case find (\<lambda>a. report_name a = k)
                          (rev (takeWhile (\<lambda>a. write_ok e Reports (report_name a))
                             (rs1 @ rs2))) of
                     None \<Rightarrow> reportsDir w k
                   | Some a \<Rightarrow>
                       Some (Html a (loadBaseline (url a) w)
                               (calculateDelta a (loadBaseline (url a) w))))
             else reportsDir w k)) \<and>
         ((\<forall>a\<in>set (rs1 @ rs2).
              write_ok e (if updateBaseline then Baseline else Latest) (urlToFilename (url a))) \<and>
          distinct (map (\<lambda>a. urlToFilename (url a)) (rs1 @ rs2)) \<longrightarrow>
            (\<forall>a\<in>set (rs1 @ rs2).
               (if updateBaseline then baselineDir w' else latestDir w') (urlToFilename (url a)) =
                 Some (Json a))) \<and>
         (u \<notin> set us \<union> set vs \<longrightarrow>
            (\<forall>k a. url a = u \<longrightarrow>
               (baselineDir w' k = Some (Json a) \<longrightarrow> baselineDir w k = Some (Json a)) \<and>
               (latestDir w' k = Some (Json a) \<longrightarrow> latestDir w k = Some (Json a)) \<and>
               (\<forall>b d. reportsDir w' k = Some (Html a b d) \<longrightarrow>
                  reportsDir w k = Some (Html a b d))))"
proof -
  note e1 = sample_urls_effect [OF s1]
  note e2 = runMultipleLighthouse_effect [OF s2]
  note e3 = sample_urls_effect [OF s3]
  have len: "length (calls w1) = length (calls w) + 3 * length us"
    using e1 by (simp add: length_concat comp_def sum_list_triv)
  have r: "r = None"
  proof (cases r)
    case None
    then show ?thesis .
  next
    case (Some a)
    with e2 have "List.map_filter run_scores (outcomes e u (length (calls w1)) 3) \<noteq> []" by auto
    then have "\<not> (\<forall>i<3. run_scores (exec e (length (calls w1) + i) u) = None)"
      by (auto simp add: map_filter_empty_iff outcomes_def)
    with fail len show ?thesis by simp
  qed
  have "sample_urls e (u # vs) [] w1 = (rs2, w3)"
    using sample_urls_Cons [OF s2, of vs] r s3 by simp
  with sample_urls_append [OF s1, of "u # vs"]
  have all: "sample_urls e (us @ u # vs) [] w = (rs1 @ rs2, w3)" by simp
  note out = run_outcome [OF run all]
  note new = run_new_files [OF run all]
  have url: "\<forall>a\<in>set (rs1 @ rs2). url a \<in> set us \<union> set vs" using e1 e3 by auto
  have "url a \<noteq> u" if "u \<notin> set us \<union> set vs" "a \<in> set (rs1 @ rs2)" for a
    using that url by metis
  with new have once: "u \<notin> set us \<union> set vs \<longrightarrow>
            (\<forall>k a. url a = u \<longrightarrow>
               (baselineDir w' k = Some (Json a) \<longrightarrow> baselineDir w k = Some (Json a)) \<and>
               (latestDir w' k = Some (Json a) \<longrightarrow> latestDir w k = Some (Json a)) \<and>
               (\<forall>b d. reportsDir w' k = Some (Html a b d) \<longrightarrow>
                  reportsDir w k = Some (Html a b d)))"
    by blast
  have stored: "(if updateBaseline then baselineDir w' else latestDir w') (urlToFilename (url a)) =
      Some (Json a)"
    if ok: "\<forall>a\<in>set (rs1 @ rs2).
        write_ok e (if updateBaseline then Baseline else Latest) (urlToFilename (url a))"
      and d: "distinct (map (\<lambda>a. urlToFilename (url a)) (rs1 @ rs2))"
      and a: "a \<in> set (rs1 @ rs2)" for a
  proof (cases updateBaseline)
    case True
    with ok have "takeWhile (\<lambda>a. write_ok e Baseline (urlToFilename (url a))) (rs1 @ rs2) = rs1 @ rs2"
      by (intro takeWhile_all) simp
    with out(2) [of "urlToFilename (url a)"] True find_rev_distinct [OF d a]
    show ?thesis by simp
  next
    case False
    with ok have "takeWhile (\<lambda>a. write_ok e Latest (urlToFilename (url a))) (rs1 @ rs2) = rs1 @ rs2"
      by (intro takeWhile_all) simp
    with out(3) [of "urlToFilename (url a)"] False find_rev_distinct [OF d a]
    show ?thesis by simp
  qed
  from r all out(5) url out(1) out(2) out(3) out(4) stored once show ?thesis
    by (intro conjI allI impI ballI) blast+
qed

lemma late_env_first_fails:
  "\<forall>i<3. run_scores (exec late_env (length (calls example_world) + 3 * length ([] :: string list) + i)
      ''https://a.example/'') = None"
  by (simp add: late_env_def example_world_def run_scores_def lighthouse_sample_def)

lemma late_env_second_result:
  "map url (fst (sample_urls late_env [''https://b.example/''] []
     (snd (runMultipleLighthouse late_env ''https://a.example/'' None example_world)))) =
   [''https://b.example/'']"
  by code_simp

theorem run_sampling_failure_witness:
  "fst (runMultipleLighthouse late_env ''https://a.example/'' None example_world) = None \<and>
   calls (snd (run late_env False [''https://a.example/'', ''https://b.example/''] example_world)) =
     [''https://a.example/'', ''https://a.example/'', ''https://a.example/'',
      ''https://b.example/'', ''https://b.example/'', ''https://b.example/''] \<and>
   fst (run late_env False [''https://a.example/'', ''https://b.example/''] example_world) = 0 \<and>
   \<not> (\<exists>k a. url a = ''https://a.example/'' \<and>
          latestDir (snd (run late_env False [''https://a.example/'', ''https://b.example/'']
            example_world)) k = Some (Json a)) \<and>
   (\<exists>a. url a = ''https://b.example/'' \<and>
        latestDir (snd (run late_env False [''https://a.example/'', ''https://b.example/'']
          example_world)) (urlToFilename ''https://b.example/'') = Some (Json a))"
proof -
  let ?a = "''https://a.example/''" and ?b = "''https://b.example/''"
  let ?run = "run late_env False ([] @ ?a # [?b]) example_world"
  let ?m = "runMultipleLighthouse late_env ?a None example_world"
  let ?s = "sample_urls late_env [?b] [] (snd ?m)"
  have run: "?run = (fst ?run, snd ?run)" by simp
  have s1: "sample_urls late_env [] [] example_world = ([], example_world)" by simp
  have s2: "?m = (fst ?m, snd ?m)" by simp
  have s3: "?s = (fst ?s, snd ?s)" by simp
  note t = run_sampling_failure [OF late_env_first_fails run s1 s2 s3]
  have ok: "write_ok late_env d f" for d f by (simp add: late_env_def)
  from late_env_second_result obtain x where x: "fst ?s = [x]" "url x = ?b"
    by (cases "fst ?s") auto
  from t have 1: "fst ?m = None" by blast
  from t have 2: "calls (snd ?run) = [?a, ?a, ?a, ?b, ?b, ?b]"
    by (simp add: example_world_def numeral_3_eq_3)
  from t have "fst ?run = (if [] @ fst ?s = [] \<or>
               (\<exists>a\<in>set ([] @ fst ?s).
                  \<not> write_ok late_env (if False then Baseline else Latest)
                       (urlToFilename (url a)) \<or>
                  (\<not> False \<and> \<not> write_ok late_env Reports (report_name a)))
            then 1 else 0)"
    by blast
  with x ok have 3: "fst ?run = 0" by simp
  from t have "\<forall>k a. url a = ?a \<longrightarrow>
      (latestDir (snd ?run) k = Some (Json a) \<longrightarrow> latestDir example_world k = Some (Json a))"
    by simp
  then have 4: "\<not> (\<exists>k a. url a = ?a \<and> latestDir (snd ?run) k = Some (Json a))"
    by (simp add: example_world_def)
  from t have "(\<forall>a\<in>set ([] @ fst ?s).
              write_ok late_env (if False then Baseline else Latest) (urlToFilename (url a))) \<and>
          distinct (map (\<lambda>a. urlToFilename (url a)) ([] @ fst ?s)) \<longrightarrow>
            (\<forall>a\<in>set ([] @ fst ?s).
               (if False then baselineDir (snd ?run) else latestDir (snd ?run))
                 (urlToFilename (url a)) = Some (Json a))"
    by blast
  with x ok have "latestDir (snd ?run) (urlToFilename ?b) = Some (Json x)" by simp
  with x have 5: "\<exists>a. url a = ?b \<and> latestDir (snd ?run) (urlToFilename ?b) = Some (Json a)"
    by blast
  from 1 2 3 4 5 show ?thesis by simp
qed

text \<open>
  C7, as stated, fails: a URL gives a result, the write of it is rejected, and the
  exit code is 1.
\<close>

theorem run_exit_code_rejected_write:
  "fst (sample_urls unwritable_env [''https://example.com/''] [] example_world) \<noteq> [] \<and>
   fst (run unwritable_env False [''https://example.com/''] example_world) = 1"
  by code_simp

text \<open>
  C7, amended: the exit code of \<^verbatim>\<open>run\<close> is non-zero exactly when no URL gave a result
  or a write of a result or of a report is rejected; no URL gives a result exactly when
  all three invocations failed for every URL of the list; the exit code is 0 or 1; and
  when no write is rejected, it is non-zero exactly when no URL gave a result.
\<close>

theorem run_exit_code:
  "(fst (run e updateBaseline urls w) \<noteq> 0 \<longleftrightarrow>
      fst (sample_urls e urls [] w) = [] \<or>
      (\<exists>a\<in>set (fst (sample_urls e urls [] w)).
         \<not> write_ok e (if updateBaseline then Baseline else Latest) (urlToFilename (url a)) \<or>
         (\<not> updateBaseline \<and> \<not> write_ok e Reports (report_name a)))) \<and>
   (fst (sample_urls e urls [] w) = [] \<longleftrightarrow>
      (\<forall>k<length urls. \<forall>i<3.
         run_scores (exec e (length (calls w) + 3 * k + i) (urls ! k)) = None)) \<and>
   (fst (run e updateBaseline urls w) = 0 \<or> fst (run e updateBaseline urls w) = 1) \<and>
   ((\<forall>d f. write_ok e d f) \<longrightarrow>
      (fst (run e updateBaseline urls w) \<noteq> 0 \<longleftrightarrow> fst (sample_urls e urls [] w) = []))"
proof -
  let ?run = "run e updateBaseline urls w" and ?s = "sample_urls e urls [] w"
  have run: "?run = (fst ?run, snd ?run)" and s: "?s = (fst ?s, snd ?s)" by simp_all
  note code = run_outcome(1) [OF run s]
  have 1: "fst ?run \<noteq> 0 \<longleftrightarrow>
      fst ?s = [] \<or>
      (\<exists>a\<in>set (fst ?s).
         \<not> write_ok e (if updateBaseline then Baseline else Latest) (urlToFilename (url a)) \<or>
         (\<not> updateBaseline \<and> \<not> write_ok e Reports (report_name a)))"
    by (subst code) simp
  have 2: "fst ?run = 0 \<or> fst ?run = 1"
    by (subst (1 2) code) simp
  from 1 have 3: "(\<forall>d f. write_ok e d f) \<longrightarrow> (fst ?run \<noteq> 0 \<longleftrightarrow> fst ?s = [])"
    by simp
  from 1 2 3 sample_urls_empty_iff [of e urls w] show ?thesis by blast
qed

lemma dead_env_fails: "run_scores (exec dead_env k u) = None"
  by (simp add: dead_env_def run_scores_def lighthouse_sample_def)

lemma late_env_succeeds: "run_scores (exec late_env 3 u) \<noteq> None"
  by (simp add: late_env_def example_output_def run_scores_def lighthouse_sample_def)

theorem run_exit_code_witness:
  "fst (run late_env False [''https://a.example/'', ''https://b.example/''] example_world) = 0 \<and>
   fst (run dead_env False [''https://a.example/'', ''https://b.example/''] example_world) = 1"
proof
  let ?urls = "[''https://a.example/'', ''https://b.example/'']"
  let ?all = "\<lambda>e. \<forall>k<length ?urls. \<forall>i<3.
      run_scores (exec e (length (calls example_world) + 3 * k + i) (?urls ! k)) = None"
  have late: "\<not> ?all late_env"
  proof
    assume a: "?all late_env"
    have "run_scores (exec late_env (length (calls example_world) + 3 * 1 + 0)
        (?urls ! 1)) = None"
      by (rule a [rule_format]) simp_all
    then have "run_scores (exec late_env 3 ''https://b.example/'') = None"
      by (simp add: example_world_def)
    with late_env_succeeds [of "''https://b.example/''"] show False by (rule notE)
  qed
  have dead: "?all dead_env" by (simp only: dead_env_fails) simp
  have ok1: "\<forall>d f. write_ok late_env d f" by (simp add: late_env_def)
  have ok2: "\<forall>d f. write_ok dead_env d f" by (simp add: dead_env_def)
  note t1 = run_exit_code [of late_env False ?urls example_world]
  from t1 ok1 have "fst (run late_env False ?urls example_world) \<noteq> 0 \<longleftrightarrow>
      fst (sample_urls late_env ?urls [] example_world) = []"
    by (elim conjE) (erule (1) mp)
  also from t1 have "\<dots> \<longleftrightarrow> ?all late_env"
    by (rule conjunct1 [OF conjunct2])
  finally have "fst (run late_env False ?urls example_world) \<noteq> 0 \<longleftrightarrow> ?all late_env" .
  with late have "\<not> fst (run late_env False ?urls example_world) \<noteq> 0" by (simp only: simp_thms)
  then show "fst (run late_env False ?urls example_world) = 0" by (rule notnotD)
  note t2 = run_exit_code [of dead_env False ?urls example_world]
  from t2 ok2 have "fst (run dead_env False ?urls example_world) \<noteq> 0 \<longleftrightarrow>
      fst (sample_urls dead_env ?urls [] example_world) = []"
    by (elim conjE) (erule (1) mp)
  also from t2 have "\<dots> \<longleftrightarrow> ?all dead_env"
    by (rule conjunct1 [OF conjunct2])
  finally have "fst (run dead_env False ?urls example_world) \<noteq> 0 \<longleftrightarrow> ?all dead_env" .
  with dead have "fst (run dead_env False ?urls example_world) \<noteq> 0" by (simp only: simp_thms)
  moreover from t2 have "fst (run dead_env False ?urls example_world) = 0 \<or>
      fst (run dead_env False ?urls example_world) = 1"
    by (rule conjunct1 [OF conjunct2 [OF conjunct2]])
  ultimately show "fst (run dead_env False ?urls example_world) = 1" by simp
qed

text \<open>
  C8: with \<^verbatim>\<open>--update-baseline\<close>, \<^verbatim>\<open>run\<close> leaves \<^verbatim>\<open>latest/\<close> and \<^verbatim>\<open>reports/\<close> as they
  were (no report is written), and \<^verbatim>\<open>baseline/\<close> holds under each file name the last
  result written with that file name, and what it held before under any other file
  name; the results are written in turn up to the first rejected write. When no write is
  rejected, \<^verbatim>\<open>baseline/\<close> holds under each file name the last result with that file
  name, and when the results also have different file names, each result is in
  \<^verbatim>\<open>baseline/\<close> under the file name of its URL.
\<close>

theorem run_update_baseline:
  assumes "run e True urls w = (code, w')"
    and "sample_urls e urls [] w = (results, w1)"
  shows "latestDir w' = latestDir w \<and> reportsDir w' = reportsDir w \<and>
         (\<forall>k. baselineDir w' k =
            (case find (\<lambda>a. urlToFilename (url a) = k)
                    (rev (takeWhile (\<lambda>a. write_ok e Baseline (urlToFilename (url a))) results)) of
               None \<Rightarrow> baselineDir w k
             | Some a \<Rightarrow> Some (Json a))) \<and>
         ((\<forall>a\<in>set results. write_ok e Baseline (urlToFilename (url a))) \<longrightarrow>
            (\<forall>k. baselineDir w' k =
               (case find (\<lambda>a. urlToFilename (url a) = k) (rev results) of
                  None \<Rightarrow> baselineDir w k
                | Some a \<Rightarrow> Some (Json a))) \<and>
            (distinct (map (\<lambda>a. urlToFilename (url a)) results) \<longrightarrow>
               (\<forall>a\<in>set results. baselineDir w' (urlToFilename (url a)) = Some (Json a))))"
proof -
  note out = run_outcome [OF assms]
  have l: "latestDir w' = latestDir w" using out(3) by (intro ext) simp
  have p: "reportsDir w' = reportsDir w" using out(4) by (intro ext) simp
  have base: "baselineDir w' k =
            (case find (\<lambda>a. urlToFilename (url a) = k)
                    (rev (takeWhile (\<lambda>a. write_ok e Baseline (urlToFilename (url a))) results)) of
               None \<Rightarrow> baselineDir w k
             | Some a \<Rightarrow> Some (Json a))" for k
    using out(2) [of k] by simp
  have all: "baselineDir w' k =
               (case find (\<lambda>a. urlToFilename (url a) = k) (rev results) of
                  None \<Rightarrow> baselineDir w k
                | Some a \<Rightarrow> Some (Json a))"
    if "\<forall>a\<in>set results. write_ok e Baseline (urlToFilename (url a))" for k
    using base [of k] takeWhile_all [OF that] by simp
  have each: "baselineDir w' (urlToFilename (url a)) = Some (Json a)"
    if "\<forall>a\<in>set results. write_ok e Baseline (urlToFilename (url a))"
      and "distinct (map (\<lambda>a. urlToFilename (url a)) results)" and "a \<in> set results" for a
    using all [OF that(1), of "urlToFilename (url a)"] find_rev_distinct [OF that(2,3)] by simp
  from l p base all each show ?thesis by blast
qed

lemma steady_env_result:
  "map url (fst (sample_urls steady_env [''https://example.com/''] [] example_world)) =
     [''https://example.com/'']"
  "map performance (fst (sample_urls steady_env [''https://example.com/''] [] example_world)) = [90]"
  by code_simp+

theorem run_update_baseline_witness:
  "latestDir (snd (run steady_env True [''https://example.com/''] example_world)) =
     latestDir example_world \<and>
   reportsDir (snd (run steady_env True [''https://example.com/''] example_world)) =
     reportsDir example_world \<and>
   baselineDir (snd (run steady_env True [''https://example.com/''] example_world)) ''other.json'' =
     None \<and>
   (\<exists>a. url a = ''https://example.com/'' \<and> performance a = 90 \<and>
        baselineDir (snd (run steady_env True [''https://example.com/''] example_world))
          ''example-com-.json'' = Some (Json a))"
proof -
  let ?run = "run steady_env True [''https://example.com/''] example_world"
  let ?s = "sample_urls steady_env [''https://example.com/''] [] example_world"
  have run: "?run = (fst ?run, snd ?run)" and s: "?s = (fst ?s, snd ?s)" by simp_all
  note t = run_update_baseline [OF run s]
  have ok: "write_ok steady_env d f" for d f by (simp add: steady_env_def)
  from steady_env_result obtain x where x: "fst ?s = [x]" "url x = ''https://example.com/''"
    "performance x = 90"
    by (cases "fst ?s") auto
  from t ok have all: "baselineDir (snd ?run) k =
               (case find (\<lambda>a. urlToFilename (url a) = k) (rev (fst ?s)) of
                  None \<Rightarrow> baselineDir example_world k
                | Some a \<Rightarrow> Some (Json a))" for k
    by blast
  from all [of "''other.json''"] x
  have 1: "baselineDir (snd ?run) ''other.json'' = None"
    by (simp add: urlToFilename_example example_world_def)
  from all [of "''example-com-.json''"] x
  have "baselineDir (snd ?run) ''example-com-.json'' = Some (Json x)"
    by (simp add: urlToFilename_example)
  with x have 2: "\<exists>a. url a = ''https://example.com/'' \<and> performance a = 90 \<and>
        baselineDir (snd ?run) ''example-com-.json'' = Some (Json a)"
    by blast
  from t 1 2 show ?thesis by blast
qed

subsection \<open>A missing category\<close>

lemma divide_Suc_less:
  assumes "int n * (int n + 1) \<le> S" and "0 < n"
  shows "(of_int S :: rat) / of_nat (Suc n) + 1 \<le> of_int S / of_nat n"
proof -
  from assms(1) have "(of_int (int n * (int n + 1)) :: rat) \<le> of_int S"
    by (simp only: of_int_le_iff)
  then have "(of_nat n :: rat) * (of_nat n + 1) \<le> of_int S" by simp
  moreover have "0 < (of_nat n :: rat)" using assms(2) by simp
  ultimately show ?thesis
    by (simp add: field_simps)
qed

lemma average_zero_sample_less:
  assumes "f s = 0" and "xs @ ys \<noteq> []"
    and "int (length (xs @ ys)) * (int (length (xs @ ys)) + 1) \<le> sum_list (map f (xs @ ys))"
  shows "average f (xs @ s # ys) < average f (xs @ ys)"
proof -
  let ?S = "sum_list (map f (xs @ ys))" and ?n = "length (xs @ ys)"
  have n: "0 < ?n" using assms(2) by simp
  have "(of_int ?S :: rat) / of_nat (Suc ?n) + 1 \<le> of_int ?S / of_nat ?n"
    using assms(3) n by (rule divide_Suc_less)
  then have "\<lfloor>of_int ?S / of_nat (Suc ?n) + 1 / 2 + 1 :: rat\<rfloor> \<le> \<lfloor>of_int ?S / of_nat ?n + 1 / 2 :: rat\<rfloor>"
    by (intro floor_mono) simp
  then have "\<lfloor>of_int ?S / of_nat (Suc ?n) + 1 / 2 :: rat\<rfloor> < \<lfloor>of_int ?S / of_nat ?n + 1 / 2 :: rat\<rfloor>"
    by linarith
  moreover have "sum_list (map f (xs @ s # ys)) = ?S" using assms(1) by simp
  moreover have "length (xs @ s # ys) = Suc ?n" by simp
  ultimately show ?thesis
    unfolding average_floor by (simp only:)
qed

text \<open>
  C10, as stated, fails: a result without the \<^verbatim>\<open>seo\<close> category gives a sample with 0
  for it, and beside a sample with the score 1 the average stays 1 (one half rounds up).
\<close>

theorem missing_category_average_unchanged:
  "fst (runLighthouse partial_env ''https://example.com/'' example_world) =
     Some \<lparr> performance = 0, accessibility = 70, bestPractices = 70, seo = 0,
            timestamp = ''2024-01-01T00:00:00.000Z'' \<rparr> \<and>
   average seo [low_sample,
     \<lparr> performance = 0, accessibility = 70, bestPractices = 70, seo = 0,
       timestamp = ''2024-01-01T00:00:00.000Z'' \<rparr>] = average seo [low_sample]"
  by code_simp

text \<open>
  C10, amended: when the parsed result has categories but one of the four is missing or
  has the score \<^verbatim>\<open>null\<close>, \<^verbatim>\<open>runLighthouse\<close> returns a sample, the loop of
  \<^verbatim>\<open>runMultipleLighthouse\<close> appends it to the results, and the sample has 0 for that
  category. With it the average of that category over non-negative scores is at most
  the average without it, and it is lower when the other \<open>n\<close> scores add up to at least
  \<open>n (n + 1)\<close>.
\<close>

theorem runLighthouse_missing_category:
  assumes "exec e (length (calls w)) u = Parsed result"
    and "categories result = Some cats"
    and "(k, f) \<in> set category_fields"
    and "cats k = None \<or> (\<exists>c. cats k = Some c \<and> score c = None)"
  shows "\<exists>s w'. runLighthouse e u w = (Some s, w') \<and> f s = 0 \<and>
           sample_loop e u (Suc n) results w = sample_loop e u n (results @ [s]) w' \<and>
           (\<forall>xs ys. xs @ ys \<noteq> [] \<and> (\<forall>r\<in>set (xs @ ys). 0 \<le> f r) \<longrightarrow>
              average f (xs @ s # ys) \<le> average f (xs @ ys)) \<and>
           (\<forall>xs ys. xs @ ys \<noteq> [] \<and>
              int (length (xs @ ys)) * (int (length (xs @ ys)) + 1) \<le> sum_list (map f (xs @ ys)) \<longrightarrow>
              average f (xs @ s # ys) < average f (xs @ ys))"
proof -
  from assms(1,2) obtain s where s: "lighthouse_sample (exec e (length (calls w)) u) (clock e (ticks w)) = Some s"
    by (simp add: lighthouse_sample_def)
  then obtain w' where r: "runLighthouse e u w = (Some s, w')"
    by (simp add: runLighthouse_def)
  have z: "score_or_0 cats k = 0" using assms(4) by (auto simp: score_or_0_def)
  have "f s = 0"
    using s assms(1,2,3) z
    by (auto simp: lighthouse_sample_def category_fields_def Math_round_of_int [of 0, simplified])
  with r average_zero_sample [of f s] average_zero_sample_less [of f s] show ?thesis by auto
qed

theorem runLighthouse_missing_category_witness:
  "\<exists>s. fst (runLighthouse partial_env ''https://example.com/'' example_world) = Some s \<and>
      seo s = 0 \<and> performance s = 0 \<and>
      average seo ([example_sample 80] @ s # []) < average seo ([example_sample 80] @ []) \<and>
      average seo ([low_sample] @ s # []) \<le> average seo ([low_sample] @ [])"
proof -
  let ?u = "''https://example.com/''"
  have x: "exec partial_env (length (calls example_world)) ?u =
      Parsed \<lparr> categories = Some partial_categories \<rparr>"
    by (simp add: partial_env_def partial_output_def)
  have c: "categories \<lparr> categories = Some partial_categories \<rparr> = Some partial_categories"
    by simp
  have f1: "(''seo'', seo) \<in> set category_fields"
    and f2: "(''performance'', performance) \<in> set category_fields"
    by (simp_all add: category_fields_def)
  have m1: "partial_categories ''seo'' = None \<or>
      (\<exists>c. partial_categories ''seo'' = Some c \<and> score c = None)"
    by (simp add: partial_categories_def)
  have m2: "partial_categories ''performance'' = None \<or>
      (\<exists>c. partial_categories ''performance'' = Some c \<and> score c = None)"
    by (simp add: partial_categories_def)
  from runLighthouse_missing_category [OF x c f1 m1, of 0 "[]"]
  obtain s w' where s: "runLighthouse partial_env ?u example_world = (Some s, w')" "seo s = 0"
    and le: "\<forall>xs ys. xs @ ys \<noteq> [] \<and> (\<forall>r\<in>set (xs @ ys). 0 \<le> seo r) \<longrightarrow>
              average seo (xs @ s # ys) \<le> average seo (xs @ ys)"
    and less: "\<forall>xs ys. xs @ ys \<noteq> [] \<and>
              int (length (xs @ ys)) * (int (length (xs @ ys)) + 1) \<le> sum_list (map seo (xs @ ys)) \<longrightarrow>
              average seo (xs @ s # ys) < average seo (xs @ ys)"
    by blast
  from runLighthouse_missing_category [OF x c f2 m2, of 0 "[]"]
  obtain s' w'' where "runLighthouse partial_env ?u example_world = (Some s', w'')"
    "performance s' = 0"
    by blast
  with s(1) have p: "performance s = 0" by simp
  have "[low_sample] @ [] \<noteq> [] \<and> (\<forall>r\<in>set ([low_sample] @ []). 0 \<le> seo r)"
    by (simp add: low_sample_def)
  with le have 1: "average seo ([low_sample] @ s # []) \<le> average seo ([low_sample] @ [])"
    by blast
  have "[example_sample 80] @ [] \<noteq> [] \<and>
      int (length ([example_sample 80] @ [])) * (int (length ([example_sample 80] @ [])) + 1)
        \<le> sum_list (map seo ([example_sample 80] @ []))"
    by (simp add: example_sample_def)
  with less have 2: "average seo ([example_sample 80] @ s # []) < average seo ([example_sample 80] @ [])"
    by blast
  from s p 1 2 show ?thesis by simp
qed

end
